theory Spec2Isabelle
  imports Complex_Main "HOL-Library.Char_ord" "HOL-Library.List_Lexorder"
begin

section \<open>The poll backend (backend/main.py) as a state-passing model\<close>

text \<open>
  The backend keeps its data in a relational store and answers each request inside one
  transaction. The model makes the store an explicit record of tables; a table is the
  list of its rows in insertion order (duplicates matter: a vote is a row). A request
  handler takes the store and the transaction's clock reading \<open>NOW()\<close> and returns its
  answer with the new store. Where a query has no \<open>ORDER BY\<close>, the model reads the rows
  in insertion order, and \<open>.first()\<close> is the first such row.

  Columns the handlers never write or read (serial ids of vote rows, display texts of
  questions) are left out. Weights are Python floats in the source; the model computes
  with exact rationals.
\<close>

subsection \<open>Configuration (backend/config.py)\<close>

type_synonym timestamp = int  \<comment> \<open>microseconds, the resolution of the store's timestamps\<close>

definition interval_minutes :: "int \<Rightarrow> int" where
  "interval_minutes n = n * 60 * 1000000"

definition QUESTION_COOLDOWN :: int where
  "QUESTION_COOLDOWN = interval_minutes 1"

definition QUESTION_COOLDOWN_text :: string where
  "QUESTION_COOLDOWN_text = ''1 minute''"

subsection \<open>Tables\<close>

record user_row =
  u_uuid :: string
  u_year_of_birth :: int
  u_referred_by :: "string option"

record question_row =
  q_question_id :: string
  q_category_id :: int
  q_block :: "int option"
  q_check_box :: bool

record option_row =
  o_id :: int
  o_question_id :: string
  o_option_code :: string
  o_option_text :: string

record response_row =
  r_question_id :: string
  r_option_id :: int
  r_uuid :: "string option"
  r_option_code :: "string option"
  r_created_at :: timestamp

record checkbox_row =
  c_question_id :: string
  c_option_id :: int
  c_uuid :: "string option"
  c_option_code :: string
  c_created_at :: timestamp

record other_row =
  x_question_id :: string
  x_question_text :: string
  x_other_text :: string
  x_submitted_at :: timestamp
  x_uuid :: "string option"

record progress_row =
  p_uuid :: string
  p_category_id :: int
  p_block :: int
  p_completed_at :: timestamp

text \<open>
  Modelled from the spec: the schema file (schema_setup.sql) is not part of the sources,
  so the column defaults are taken from the data model of the spec: a vote row and a
  free-text row carry the timestamp of their insertion (\<open>r_created_at\<close>,
  \<open>c_created_at\<close>, \<open>x_submitted_at\<close> are \<open>NOW()\<close> of the inserting transaction), and a
  column an \<open>INSERT\<close> does not name is \<open>NULL\<close> (\<open>None\<close>).

  \<open>session_responses\<close> is the module-level dictionary of main.py; it lives in process
  memory, outside the transaction.
\<close>

record state =
  users_18 :: "user_row list"
  questions_18 :: "question_row list"
  options_18 :: "option_row list"
  responses_18 :: "response_row list"
  checkbox_responses_18 :: "checkbox_row list"
  other_responses_18 :: "other_row list"
  user_block_progress_18 :: "progress_row list"
  session_responses :: "string \<rightharpoonup> (string \<times> string) list"

subsection \<open>Request bodies, answers and exceptions\<close>

record Vote =
  v_question_id :: string
  v_option_code :: string
  v_session_id :: "string option"
  v_uuid :: "string option"
  v_year_of_birth :: "int option"
  v_referred_by :: "string option"

record CheckboxVote =
  cv_question_id :: string
  cv_option_codes :: "string list"
  cv_uuid :: "string option"
  cv_year_of_birth :: "int option"
  cv_other_text :: "string option"
  cv_referred_by :: "string option"

text \<open>
  \<open>HTTPException status detail\<close> is FastAPI's exception; the detail of the exception
  that a handler's \<open>except Exception as e\<close> clause raises is \<open>str(e)\<close>, kept as \<open>Str e\<close>.
\<close>

datatype exn = HTTPException nat detail | KeyError string
  and detail = Text string | Str exn

fun status_code :: "exn \<Rightarrow> nat option" where
  "status_code (HTTPException s d) = Some s"
| "status_code (KeyError k) = None"

datatype vote_result =
    Already_voted string
  | Other_needed string "(string \<times> string) list"
  | Success string "(string \<times> string) list"

datatype checkbox_result = Cb_already_voted string | Cb_success

fun status :: "vote_result \<Rightarrow> string" where
  "status (Already_voted m) = ''already_voted''"
| "status (Other_needed sid prev) = ''other_needed''"
| "status (Success sid prev) = ''success''"

fun cb_status :: "checkbox_result \<Rightarrow> string" where
  "cb_status (Cb_already_voted m) = ''already_voted''"
| "cb_status Cb_success = ''success''"

subsection \<open>Python truthiness and SQL equality\<close>

definition truthy_str :: "string option \<Rightarrow> bool" where
  "truthy_str s = (case s of None \<Rightarrow> False | Some t \<Rightarrow> t \<noteq> [])"

definition truthy_int :: "int option \<Rightarrow> bool" where
  "truthy_int i = (case i of None \<Rightarrow> False | Some n \<Rightarrow> n \<noteq> 0)"

text \<open>\<open>column = :param\<close> is never true when either side is \<open>NULL\<close>.\<close>

definition sql_eq :: "'a option \<Rightarrow> 'a option \<Rightarrow> bool" where
  "sql_eq col param = (case param of None \<Rightarrow> False | Some p \<Rightarrow> col = Some p)"

definition first :: "'a list \<Rightarrow> 'a option" where
  "first rows = (case rows of [] \<Rightarrow> None | r # _ \<Rightarrow> Some r)"

subsection \<open>Block progress: \<open>all_block_questions_answered\<close>, \<open>mark_block_completed\<close>\<close>

definition qid_types :: "state \<Rightarrow> int \<Rightarrow> int \<Rightarrow> (string \<times> bool) list" where
  "qid_types st category_id block =
     map (\<lambda>q. (q_question_id q, q_check_box q))
       (filter (\<lambda>q. q_category_id q = category_id \<and> q_block q = Some block) (questions_18 st))"

text \<open>The two \<open>SELECT 1 ... LIMIT 1\<close> queries of the loop body, by the question's kind.\<close>

definition resp_result :: "state \<Rightarrow> string \<Rightarrow> string \<times> bool \<Rightarrow> bool" where
  "resp_result st uuid qt =
     (if snd qt
      then list_ex (\<lambda>r. c_uuid r = Some uuid \<and> c_question_id r = fst qt) (checkbox_responses_18 st)
      else list_ex (\<lambda>r. r_uuid r = Some uuid \<and> r_question_id r = fst qt) (responses_18 st))"

definition answered :: "state \<Rightarrow> string \<Rightarrow> (string \<times> bool) list \<Rightarrow> string set" where
  "answered st uuid qts = set (map fst (filter (resp_result st uuid) qts))"

definition all_block_questions_answered :: "state \<Rightarrow> string \<Rightarrow> int \<Rightarrow> int \<Rightarrow> bool" where
  "all_block_questions_answered st uuid category_id block =
     (let qts = qid_types st category_id block in
      if qts = [] then False
      else set (map fst qts) = answered st uuid qts)"

text \<open>
  The upsert \<open>INSERT ... ON CONFLICT (uuid, category_id, block) DO UPDATE SET
  completed_at = NOW()\<close>: a row with the key is refreshed, otherwise one is appended.
\<close>

definition conflict :: "string \<Rightarrow> int \<Rightarrow> int \<Rightarrow> progress_row \<Rightarrow> bool" where
  "conflict uuid category_id block p =
     (p_uuid p = uuid \<and> p_category_id p = category_id \<and> p_block p = block)"

definition mark_block_completed :: "timestamp \<Rightarrow> state \<Rightarrow> string \<Rightarrow> int \<Rightarrow> int \<Rightarrow> state" where
  "mark_block_completed now st uuid category_id block =
     (if list_ex (conflict uuid category_id block) (user_block_progress_18 st)
      then st\<lparr>user_block_progress_18 :=
             map (\<lambda>p. if conflict uuid category_id block p then p\<lparr>p_completed_at := now\<rparr> else p)
               (user_block_progress_18 st)\<rparr>
      else st\<lparr>user_block_progress_18 := user_block_progress_18 st @
             [\<lparr>p_uuid = uuid, p_category_id = category_id, p_block = block,
               p_completed_at = now\<rparr>]\<rparr>)"

text \<open>The block check that closes both vote handlers.\<close>

definition check_block :: "timestamp \<Rightarrow> state \<Rightarrow> string option \<Rightarrow> string \<Rightarrow> state" where
  "check_block now st uuid qid =
     (case first (filter (\<lambda>q. q_question_id q = qid) (questions_18 st)) of
        None \<Rightarrow> st
      | Some qinfo \<Rightarrow>
          (case (uuid, q_block qinfo) of
             (Some u, Some block) \<Rightarrow>
               if u \<noteq> [] \<and> all_block_questions_answered st u (q_category_id qinfo) block
               then mark_block_completed now st u (q_category_id qinfo) block
               else st
           | _ \<Rightarrow> st))"

subsection \<open>Lazy user creation\<close>

text \<open>
  The block under \<^verbatim>\<open># Handle user creation/validation if UUID is provided\<close>, which
  \<open>submit_vote\<close>, \<open>submit_checkbox_vote\<close> and \<open>submit_other_response\<close> each carry as the
  same inline text; the model names it once. Its arguments are the request's \<open>uuid\<close>,
  \<open>year_of_birth\<close> and \<open>referred_by\<close>; the first test is the block's own guard
  \<open>if vote.uuid and vote.year_of_birth\<close>, and an absent or empty \<open>referred_by\<close> is the
  \<open>else\<close> branch of \<open>if vote.referred_by\<close>.
\<close>

definition user_exists :: "state \<Rightarrow> string \<Rightarrow> bool" where
  "user_exists st uuid = (first (filter (\<lambda>u. u_uuid u = uuid) (users_18 st)) \<noteq> None)"

definition handle_user_creation ::
  "state \<Rightarrow> string option \<Rightarrow> int option \<Rightarrow> string option \<Rightarrow> state" where
  "handle_user_creation st uuid year_of_birth referred_by =
     (case (uuid, year_of_birth) of
        (Some u, Some y) \<Rightarrow>
          if u \<noteq> [] \<and> y \<noteq> 0 then
            if \<not> user_exists st u then
              (case referred_by of
                 None \<Rightarrow>
                   st\<lparr>users_18 := users_18 st @
                     [\<lparr>u_uuid = u, u_year_of_birth = y, u_referred_by = None\<rparr>]\<rparr>
               | Some ref \<Rightarrow>
                   if ref = [] then
                     st\<lparr>users_18 := users_18 st @
                       [\<lparr>u_uuid = u, u_year_of_birth = y, u_referred_by = None\<rparr>]\<rparr>
                   else if user_exists st ref then
                     st\<lparr>users_18 := users_18 st @
                       [\<lparr>u_uuid = u, u_year_of_birth = y, u_referred_by = Some ref\<rparr>]\<rparr>
                   else
                     st\<lparr>users_18 := users_18 st @
                       [\<lparr>u_uuid = u, u_year_of_birth = y, u_referred_by = None\<rparr>]\<rparr>)
            else st
          else st
      | _ \<Rightarrow> st)"

subsection \<open>\<open>submit_vote\<close>\<close>

definition already_voted_message :: string where
  "already_voted_message =
     ''You have already voted on this question. Please come back after '' @
     QUESTION_COOLDOWN_text @ '' if you want to vote again for this question.''"

text \<open>The cooldown query on \<open>responses_18\<close>; \<open>True\<close> when \<open>fetchone()\<close> returns a row.\<close>

definition recent_vote :: "timestamp \<Rightarrow> state \<Rightarrow> string option \<Rightarrow> string \<Rightarrow> bool" where
  "recent_vote now st uuid qid =
     list_ex (\<lambda>r. sql_eq (r_uuid r) uuid \<and> r_question_id r = qid
                 \<and> r_created_at r > now - QUESTION_COOLDOWN) (responses_18 st)"

definition find_option :: "state \<Rightarrow> string \<Rightarrow> string \<Rightarrow> option_row option" where
  "find_option st qid code =
     first (filter (\<lambda>opt. o_question_id opt = qid \<and> o_option_code opt = code) (options_18 st))"

text \<open>
  The two \<open>INSERT INTO responses_18\<close> statements: with a uuid the row stores the uuid
  and the option code; without one it names only \<open>question_id\<close> and \<open>option_id\<close>.
\<close>

definition insert_response :: "timestamp \<Rightarrow> state \<Rightarrow> Vote \<Rightarrow> option_row \<Rightarrow> state" where
  "insert_response now st vote opt =
     (if truthy_str (v_uuid vote)
      then st\<lparr>responses_18 := responses_18 st @
             [\<lparr>r_question_id = v_question_id vote, r_option_id = o_id opt,
               r_uuid = v_uuid vote, r_option_code = Some (v_option_code vote),
               r_created_at = now\<rparr>]\<rparr>
      else st\<lparr>responses_18 := responses_18 st @
             [\<lparr>r_question_id = v_question_id vote, r_option_id = o_id opt,
               r_uuid = None, r_option_code = None, r_created_at = now\<rparr>]\<rparr>)"

text \<open>
  The body of the \<open>try\<close> block. \<open>uuid4\<close> is the value \<open>str(uuid.uuid4())\<close> would draw.
  An exception leaves the block with the store as the statements before it made it;
  the caller rolls it back.
\<close>

definition submit_vote_try ::
  "timestamp \<Rightarrow> string \<Rightarrow> Vote \<Rightarrow> state \<Rightarrow> (exn + vote_result) \<times> state" where
  "submit_vote_try now uuid4 vote st =
     (if recent_vote now st (v_uuid vote) (v_question_id vote)
      then (Inr (Already_voted already_voted_message), st)
      else
        let st1 = handle_user_creation st (v_uuid vote) (v_year_of_birth vote)
                    (v_referred_by vote);
            session_id = (case v_session_id vote of
                            None \<Rightarrow> uuid4
                          | Some s \<Rightarrow> if s = [] then uuid4 else s);
            previous = (case session_responses st1 session_id of None \<Rightarrow> [] | Some h \<Rightarrow> h)
                         @ [(v_question_id vote, v_option_code vote)];
            st2 = st1\<lparr>session_responses := (session_responses st1)(session_id \<mapsto> previous)\<rparr>
        in
          if v_option_code vote = ''OTHER''
          then (Inr (Other_needed session_id previous), st2)
          else
            (case find_option st2 (v_question_id vote) (v_option_code vote) of
               None \<Rightarrow> (Inl (HTTPException 400 (Text ''Invalid option'')), st2)
             | Some opt \<Rightarrow>
                 let st3 = insert_response now st2 vote opt;
                     st4 = check_block now st3 (v_uuid vote) (v_question_id vote)
                 in (Inr (Success session_id previous), st4)))"

text \<open>
  \<open>with engine.begin()\<close> commits when the block is left by \<open>return\<close> and rolls the
  tables back when it is left by an exception; the session dictionary is not part of
  the transaction. \<open>except Exception as e\<close> then raises
  \<open>HTTPException(status_code=500, detail=str(e))\<close> for every exception of the block.
\<close>

definition rollback :: "state \<Rightarrow> state \<Rightarrow> state" where
  "rollback before after = before\<lparr>session_responses := session_responses after\<rparr>"

definition submit_vote ::
  "timestamp \<Rightarrow> string \<Rightarrow> Vote \<Rightarrow> state \<Rightarrow> (exn + vote_result) \<times> state" where
  "submit_vote now uuid4 vote st =
     (case submit_vote_try now uuid4 vote st of
        (Inr res, st') \<Rightarrow> (Inr res, st')
      | (Inl e, st') \<Rightarrow> (Inl (HTTPException 500 (Str e)), rollback st st'))"

subsection \<open>\<open>submit_checkbox_vote\<close>\<close>

definition cb_recent_vote :: "timestamp \<Rightarrow> state \<Rightarrow> string option \<Rightarrow> string \<Rightarrow> bool" where
  "cb_recent_vote now st uuid qid =
     list_ex (\<lambda>r. sql_eq (c_uuid r) uuid \<and> c_question_id r = qid
                 \<and> c_created_at r > now - QUESTION_COOLDOWN) (checkbox_responses_18 st)"

text \<open>One round of the loop \<open>for option_code in vote.option_codes\<close>.\<close>

definition insert_checkbox :: "timestamp \<Rightarrow> CheckboxVote \<Rightarrow> string \<Rightarrow> state \<Rightarrow> state" where
  "insert_checkbox now vote option_code st =
     (case find_option st (cv_question_id vote) option_code of
        None \<Rightarrow> st
      | Some opt \<Rightarrow>
          st\<lparr>checkbox_responses_18 := checkbox_responses_18 st @
            [\<lparr>c_question_id = cv_question_id vote, c_option_id = o_id opt,
              c_uuid = cv_uuid vote, c_option_code = option_code, c_created_at = now\<rparr>]\<rparr>)"

text \<open>
  Python's \<open>str.strip()\<close>, for the whitespace characters of the ASCII range (a text with
  other whitespace at its ends keeps it in the model).
\<close>

definition is_space :: "char \<Rightarrow> bool" where
  "is_space ch =
     (ch \<in> set [CHR '' '', CHR 0x09, CHR 0x0A, CHR 0x0B, CHR 0x0C, CHR 0x0D,
                  CHR 0x1C, CHR 0x1D, CHR 0x1E, CHR 0x1F])"

definition strip :: "string \<Rightarrow> string" where
  "strip s = rev (dropWhile is_space (rev (dropWhile is_space s)))"

definition insert_other :: "timestamp \<Rightarrow> CheckboxVote \<Rightarrow> state \<Rightarrow> state" where
  "insert_other now vote st =
     (case cv_other_text vote of
        None \<Rightarrow> st
      | Some t \<Rightarrow>
          if ''OTHER'' \<in> set (cv_option_codes vote) \<and> t \<noteq> [] \<and> strip t \<noteq> []
          then st\<lparr>other_responses_18 := other_responses_18 st @
                 [\<lparr>x_question_id = cv_question_id vote, x_question_text = [],
                   x_other_text = strip t, x_submitted_at = now, x_uuid = cv_uuid vote\<rparr>]\<rparr>
          else st)"

text \<open>No statement of this handler's \<open>try\<close> block raises in the model.\<close>

definition submit_checkbox_vote ::
  "timestamp \<Rightarrow> CheckboxVote \<Rightarrow> state \<Rightarrow> (exn + checkbox_result) \<times> state" where
  "submit_checkbox_vote now vote st =
     (if cb_recent_vote now st (cv_uuid vote) (cv_question_id vote)
      then (Inr (Cb_already_voted already_voted_message), st)
      else
        let st1 = handle_user_creation st (cv_uuid vote) (cv_year_of_birth vote)
                    (cv_referred_by vote);
            st2 = fold (insert_checkbox now vote) (cv_option_codes vote) st1;
            st3 = insert_other now vote st2;
            st4 = check_block now st3 (cv_uuid vote) (cv_question_id vote)
        in (Inr Cb_success, st4))"

subsection \<open>\<open>get_question_results\<close>\<close>

definition is_checkbox :: "state \<Rightarrow> string \<Rightarrow> bool" where
  "is_checkbox st qid =
     (case first (filter (\<lambda>q. q_question_id q = qid) (questions_18 st)) of
        None \<Rightarrow> False
      | Some qtype \<Rightarrow> q_check_box qtype)"

text \<open>
  \<open>SELECT ... FROM options_18 WHERE question_id = :question_id ORDER BY option_code\<close>,
  with the codes compared character by character.
\<close>

definition question_options :: "state \<Rightarrow> string \<Rightarrow> option_row list" where
  "question_options st qid =
     sort_key o_option_code (filter (\<lambda>opt. o_question_id opt = qid) (options_18 st))"

definition option_codes :: "state \<Rightarrow> string \<Rightarrow> string list" where
  "option_codes st qid = map o_option_code (question_options st qid)"

definition option_texts :: "state \<Rightarrow> string \<Rightarrow> (string \<rightharpoonup> string)" where
  "option_texts st qid =
     fold (\<lambda>opt m. m(o_option_code opt \<mapsto> o_option_text opt)) (question_options st qid) Map.empty"

definition initial_results :: "string list \<Rightarrow> (string \<rightharpoonup> rat)" where
  "initial_results codes = fold (\<lambda>code m. m(code \<mapsto> 0)) codes Map.empty"

text \<open>\<open>if code in results_dict: results_dict[code] += weight\<close>\<close>

definition add_if_present :: "string \<Rightarrow> rat \<Rightarrow> (string \<rightharpoonup> rat) \<Rightarrow> (string \<rightharpoonup> rat)" where
  "add_if_present code weight results_dict =
     (case results_dict code of
        None \<Rightarrow> results_dict
      | Some c \<Rightarrow> results_dict(code \<mapsto> c + weight))"

text \<open>
  \<open>STRING_AGG(option_code, ',')\<close> joins the codes of a group with commas, and Python's
  \<open>codes.split(',')\<close> cuts the text at every comma.
\<close>

fun string_agg :: "string list \<Rightarrow> string" where
  "string_agg [] = []"
| "string_agg [code] = code"
| "string_agg (code # rest) = code @ CHR '','' # string_agg rest"

fun split_comma :: "string \<Rightarrow> string list" where
  "split_comma [] = [[]]"
| "split_comma (ch # s) =
     (if ch = CHR '','' then [] # split_comma s
      else (case split_comma s of
              [] \<Rightarrow> [[ch]]
            | w # ws \<Rightarrow> (ch # w) # ws))"

text \<open>
  The grouped query \<open>SELECT uuid, STRING_AGG(option_code, ',') ... GROUP BY uuid\<close>: one
  row for each uuid value of the question's checkbox rows (the rows without a uuid form
  a group of their own).
\<close>

definition user_votes :: "state \<Rightarrow> string \<Rightarrow> (string option \<times> string) list" where
  "user_votes st qid =
     (let rows = filter (\<lambda>r. c_question_id r = qid) (checkbox_responses_18 st)
      in map (\<lambda>u. (u, string_agg (map c_option_code (filter (\<lambda>r. c_uuid r = u) rows))))
           (remdups (map c_uuid rows)))"

text \<open>One round of \<open>for user in user_votes\<close>.\<close>

definition add_user_votes ::
  "string option \<times> string \<Rightarrow> (string \<rightharpoonup> rat) \<Rightarrow> (string \<rightharpoonup> rat)" where
  "add_user_votes user results_dict =
     (if \<not> truthy_str (fst user) \<or> snd user = [] then results_dict
      else
        let codes = split_comma (snd user); n = length codes in
        if n = 0 then results_dict
        else fold (\<lambda>code. add_if_present code (1 / of_nat n)) codes results_dict)"

definition anon_votes :: "state \<Rightarrow> string \<Rightarrow> (string \<times> nat) list" where
  "anon_votes st qid =
     (let rows = filter (\<lambda>r. c_question_id r = qid \<and> (c_uuid r = None \<or> c_uuid r = Some []))
                   (checkbox_responses_18 st)
      in map (\<lambda>code. (code, length (filter (\<lambda>r. c_option_code r = code) rows)))
           (remdups (map c_option_code rows)))"

definition resp_counts :: "state \<Rightarrow> string \<Rightarrow> (string option \<times> nat) list" where
  "resp_counts st qid =
     (let rows = filter (\<lambda>r. r_question_id r = qid) (responses_18 st)
      in map (\<lambda>code. (code, length (filter (\<lambda>r. r_option_code r = code) rows)))
           (remdups (map r_option_code rows)))"

text \<open>\<open>results_dict\<close> as it stands after the \<open>if is_checkbox: ... else: ...\<close> statement.\<close>

definition results_dict :: "state \<Rightarrow> string \<Rightarrow> (string \<rightharpoonup> rat)" where
  "results_dict st qid =
     (let init = initial_results (option_codes st qid) in
      if is_checkbox st qid
      then fold (\<lambda>row. add_if_present (fst row) (of_nat (snd row))) (anon_votes st qid)
             (fold add_user_votes (user_votes st qid) init)
      else fold (\<lambda>row. case fst row of
                          None \<Rightarrow> id
                        | Some code \<Rightarrow> add_if_present code (of_nat (snd row)))
             (resp_counts st qid) init)"

text \<open>
  \<open>ORDER BY submitted_at DESC\<close>; of two texts with the same timestamp the later row is
  read first.
\<close>

definition custom_responses :: "state \<Rightarrow> string \<Rightarrow> string list" where
  "custom_responses st qid =
     map x_other_text
       (rev (sort_key x_submitted_at (filter (\<lambda>x. x_question_id x = qid) (other_responses_18 st))))"

text \<open>
  \<open>round(count, 2)\<close>: to the nearest multiple of 1/100, a tie to the even one. The
  source rounds a sum of binary floats, the model the exact rational: they agree on
  whole numbers, and can differ by 1/100 where the exact sum is a tie (13/40 is 0.32
  here; the float sum 1/8 + 1/5 lies above the tie and is rounded to 0.33).
\<close>

definition round_half_even :: "rat \<Rightarrow> int" where
  "round_half_even x =
     (let f = \<lfloor>x\<rfloor>; d = x - of_int f in
      if d < 1 / 2 then f
      else if 1 / 2 < d then f + 1
      else if even f then f else f + 1)"

definition round2 :: "rat \<Rightarrow> rat" where
  "round2 x = of_int (round_half_even (x * 100)) / 100"

record result_entry =
  e_text :: string
  e_code :: string
  e_count :: rat

record question_results =
  results :: "result_entry list"
  custom_responses_out :: "string list"

text \<open>One round of \<open>for code in option_codes\<close>; a dictionary subscript raises \<open>KeyError\<close>.\<close>

definition format_entry ::
  "bool \<Rightarrow> (string \<rightharpoonup> rat) \<Rightarrow> (string \<rightharpoonup> string) \<Rightarrow> nat \<Rightarrow> string \<Rightarrow> exn + result_entry" where
  "format_entry is_cb rd texts n_other code =
     (if code = ''OTHER'' then
        (if is_cb then
           (case rd ''OTHER'' of
              None \<Rightarrow> Inl (KeyError ''OTHER'')
            | Some c \<Rightarrow>
                Inr \<lparr>e_text = (case texts ''OTHER'' of None \<Rightarrow> ''Other'' | Some t \<Rightarrow> t),
                     e_code = ''OTHER'', e_count = round2 c\<rparr>)
         else
           Inr \<lparr>e_text = (case texts ''OTHER'' of None \<Rightarrow> ''Other'' | Some t \<Rightarrow> t),
                e_code = ''OTHER'', e_count = round2 (of_nat n_other)\<rparr>)
      else
        (case rd code of
           None \<Rightarrow> Inl (KeyError code)
         | Some c \<Rightarrow>
             (case texts code of
                None \<Rightarrow> Inl (KeyError code)
              | Some t \<Rightarrow> Inr \<lparr>e_text = t, e_code = code, e_count = round2 c\<rparr>)))"

fun format_results ::
  "bool \<Rightarrow> (string \<rightharpoonup> rat) \<Rightarrow> (string \<rightharpoonup> string) \<Rightarrow> nat \<Rightarrow> string list
     \<Rightarrow> exn + result_entry list" where
  "format_results is_cb rd texts n_other [] = Inr []"
| "format_results is_cb rd texts n_other (code # codes) =
     (case format_entry is_cb rd texts n_other code of
        Inl e \<Rightarrow> Inl e
      | Inr entry \<Rightarrow>
          (case format_results is_cb rd texts n_other codes of
             Inl e \<Rightarrow> Inl e
           | Inr entries \<Rightarrow> Inr (entry # entries)))"

definition get_question_results :: "state \<Rightarrow> string \<Rightarrow> exn + question_results" where
  "get_question_results st qid =
     (let other = custom_responses st qid in
      case format_results (is_checkbox st qid) (results_dict st qid) (option_texts st qid)
             (length other) (option_codes st qid) of
        Inl e \<Rightarrow> Inl (HTTPException 500 (Str e))
      | Inr entries \<Rightarrow> Inr \<lparr>results = entries, custom_responses_out = other\<rparr>)"

subsection \<open>\<open>submit_other_response\<close>\<close>

record OtherResponse =
  ov_question_id :: string
  ov_question_text :: string
  ov_other_text :: string
  ov_uuid :: "string option"
  ov_year_of_birth :: "int option"
  ov_referred_by :: "string option"

text \<open>
  Both \<open>insert(other_responses_table)\<close> statements store the same row, the uuid being
  \<open>NULL\<close> when the request has none (an empty uuid is stored as \<open>NULL\<close> too, by the
  \<open>else\<close> branch). The answer is always \<open>{"status": "success"}\<close>.
\<close>

definition submit_other_response :: "timestamp \<Rightarrow> OtherResponse \<Rightarrow> state \<Rightarrow> state" where
  "submit_other_response now response st =
     (let st1 = handle_user_creation st (ov_uuid response) (ov_year_of_birth response)
                  (ov_referred_by response)
      in st1\<lparr>other_responses_18 := other_responses_18 st1 @
           [\<lparr>x_question_id = ov_question_id response,
             x_question_text = ov_question_text response,
             x_other_text = ov_other_text response, x_submitted_at = now,
             x_uuid = (if truthy_str (ov_uuid response) then ov_uuid response else None)\<rparr>]\<rparr>)"

subsection \<open>Reading the tables\<close>

text \<open>
  The quantities in which the properties below are stated. They are read off the tables
  directly and take no part in the handlers.

  \<open>without_anonymous_rows\<close> drops every vote row that has no uuid.
\<close>

definition without_anonymous_rows :: "state \<Rightarrow> state" where
  "without_anonymous_rows st =
     st\<lparr>responses_18 := filter (\<lambda>r. r_uuid r \<noteq> None) (responses_18 st),
        checkbox_responses_18 := filter (\<lambda>r. c_uuid r \<noteq> None) (checkbox_responses_18 st)\<rparr>"

text \<open>The rows a checkbox submission writes: one for each of its codes that resolves.\<close>

definition checkbox_rows :: "timestamp \<Rightarrow> CheckboxVote \<Rightarrow> state \<Rightarrow> checkbox_row list" where
  "checkbox_rows now vote st =
     concat (map (\<lambda>code. case find_option st (cv_question_id vote) code of
                            None \<Rightarrow> []
                          | Some opt \<Rightarrow>
                              [\<lparr>c_question_id = cv_question_id vote, c_option_id = o_id opt,
                                c_uuid = cv_uuid vote, c_option_code = code,
                                c_created_at = now\<rparr>])
              (cv_option_codes vote))"

text \<open>
  The codes of all checkbox rows a uuid has for a question, in insertion order and with
  repetitions; the identified voters of a question; the number of its anonymous rows
  with a code; the number of its single-select rows that store a code.
\<close>

definition user_codes :: "state \<Rightarrow> string \<Rightarrow> string option \<Rightarrow> string list" where
  "user_codes st qid uuid =
     map c_option_code
       (filter (\<lambda>r. c_uuid r = uuid)
          (filter (\<lambda>r. c_question_id r = qid) (checkbox_responses_18 st)))"

definition voters :: "state \<Rightarrow> string \<Rightarrow> string option list" where
  "voters st qid =
     filter truthy_str
       (remdups (map c_uuid (filter (\<lambda>r. c_question_id r = qid) (checkbox_responses_18 st))))"

definition anonymous_count :: "state \<Rightarrow> string \<Rightarrow> string \<Rightarrow> nat" where
  "anonymous_count st qid code =
     length (filter (\<lambda>r. c_question_id r = qid \<and> \<not> truthy_str (c_uuid r) \<and> c_option_code r = code)
               (checkbox_responses_18 st))"

definition response_count :: "state \<Rightarrow> string \<Rightarrow> string \<Rightarrow> nat" where
  "response_count st qid code =
     length (filter (\<lambda>r. r_option_code r = Some code)
               (filter (\<lambda>r. r_question_id r = qid) (responses_18 st)))"

text \<open>
  The share of a voter's one vote that a code receives: the code's occurrences among the
  voter's rows, over the number of these rows.
\<close>

definition user_weight :: "state \<Rightarrow> string \<Rightarrow> string option \<Rightarrow> string \<Rightarrow> rat" where
  "user_weight st qid uuid code =
     of_nat (count_list (user_codes st qid uuid) code) / of_nat (length (user_codes st qid uuid))"

text \<open>
  The codes of a question's checkbox rows survive the round trip through \<open>STRING_AGG\<close>
  and \<open>split\<close> when none is empty and none contains a comma.
\<close>

definition plain_codes :: "state \<Rightarrow> string \<Rightarrow> bool" where
  "plain_codes st qid =
     list_all (\<lambda>r. c_question_id r = qid \<longrightarrow> c_option_code r \<noteq> [] \<and> CHR '','' \<notin> set (c_option_code r))
       (checkbox_responses_18 st)"

text \<open>What one round of the user loop adds to a code, and the count of a result entry.\<close>

definition group_weight :: "string option \<times> string \<Rightarrow> string \<Rightarrow> rat" where
  "group_weight user c =
     (if \<not> truthy_str (fst user) \<or> snd user = [] then 0
      else of_nat (count_list (split_comma (snd user)) c) / of_nat (length (split_comma (snd user))))"

definition entry_count :: "bool \<Rightarrow> (string \<rightharpoonup> rat) \<Rightarrow> nat \<Rightarrow> string \<Rightarrow> rat" where
  "entry_count is_cb rd n_other code =
     (if code = ''OTHER'' \<and> \<not> is_cb then round2 (of_nat n_other)
      else round2 (case rd code of None \<Rightarrow> 0 | Some c \<Rightarrow> c))"

subsection \<open>The store's constraints, and repeated calls\<close>

text \<open>
  \<open>ON CONFLICT (uuid, category_id, block)\<close> needs a unique index on these columns, so a
  store holds at most one progress row for a key. \<open>question_id\<close> is the key by which
  options and votes refer to a question.
\<close>

definition progress_key :: "progress_row \<Rightarrow> string \<times> int \<times> int" where
  "progress_key p = (p_uuid p, p_category_id p, p_block p)"

definition unique_progress :: "state \<Rightarrow> bool" where
  "unique_progress st = distinct (map progress_key (user_block_progress_18 st))"

definition unique_question_ids :: "state \<Rightarrow> bool" where
  "unique_question_ids st = distinct (map q_question_id (questions_18 st))"

text \<open>\<open>mark_block_completed\<close> called once at each of the clock readings \<open>nows\<close>, in order.\<close>

definition mark_repeatedly :: "timestamp list \<Rightarrow> state \<Rightarrow> string \<Rightarrow> int \<Rightarrow> int \<Rightarrow> state" where
  "mark_repeatedly nows st uuid category_id block =
     fold (\<lambda>now s. mark_block_completed now s uuid category_id block) nows st"

subsection \<open>A small store for concrete runs\<close>

text \<open>
  Category 1, block 1 holds the single-select question Q1 (options A, B, OTHER) and the
  checkbox question Q2 (options X, Y, OTHER).
\<close>

definition example_store :: state where
  "example_store =
     \<lparr>users_18 = [],
      questions_18 =
        [\<lparr>q_question_id = ''Q1'', q_category_id = 1, q_block = Some 1, q_check_box = False\<rparr>,
         \<lparr>q_question_id = ''Q2'', q_category_id = 1, q_block = Some 1, q_check_box = True\<rparr>],
      options_18 =
        [\<lparr>o_id = 1, o_question_id = ''Q1'', o_option_code = ''A'', o_option_text = ''Yes''\<rparr>,
         \<lparr>o_id = 2, o_question_id = ''Q1'', o_option_code = ''B'', o_option_text = ''No''\<rparr>,
         \<lparr>o_id = 3, o_question_id = ''Q1'', o_option_code = ''OTHER'', o_option_text = ''Other''\<rparr>,
         \<lparr>o_id = 4, o_question_id = ''Q2'', o_option_code = ''X'', o_option_text = ''Music''\<rparr>,
         \<lparr>o_id = 5, o_question_id = ''Q2'', o_option_code = ''Y'', o_option_text = ''Sport''\<rparr>,
         \<lparr>o_id = 6, o_question_id = ''Q2'', o_option_code = ''OTHER'', o_option_text = ''Other''\<rparr>],
      responses_18 = [],
      checkbox_responses_18 = [],
      other_responses_18 = [],
      user_block_progress_18 = [],
      session_responses = Map.empty\<rparr>"

text \<open>User U1 has answered both questions of the block; U2 only Q1.\<close>

definition answered_store :: state where
  "answered_store =
     example_store
       \<lparr>responses_18 :=
          [\<lparr>r_question_id = ''Q1'', r_option_id = 1, r_uuid = Some ''U1'',
            r_option_code = Some ''A'', r_created_at = 10\<rparr>,
           \<lparr>r_question_id = ''Q1'', r_option_id = 2, r_uuid = Some ''U2'',
            r_option_code = Some ''B'', r_created_at = 20\<rparr>],
        checkbox_responses_18 :=
          [\<lparr>c_question_id = ''Q2'', c_option_id = 4, c_uuid = Some ''U1'',
            c_option_code = ''X'', c_created_at = 30\<rparr>],
        user_block_progress_18 :=
          [\<lparr>p_uuid = ''U2'', p_category_id = 1, p_block = 1, p_completed_at = 5\<rparr>,
           \<lparr>p_uuid = ''U1'', p_category_id = 1, p_block = 1, p_completed_at = 7\<rparr>]\<rparr>"

text \<open>Requests to Q1 and Q2.\<close>

definition single_vote :: "string option \<Rightarrow> int option \<Rightarrow> string option \<Rightarrow> string \<Rightarrow> Vote" where
  "single_vote uuid year_of_birth referred_by code =
     \<lparr>v_question_id = ''Q1'', v_option_code = code, v_session_id = None, v_uuid = uuid,
      v_year_of_birth = year_of_birth, v_referred_by = referred_by\<rparr>"

definition checkbox_vote ::
  "string option \<Rightarrow> int option \<Rightarrow> string option \<Rightarrow> string list \<Rightarrow> CheckboxVote" where
  "checkbox_vote uuid year_of_birth referred_by codes =
     \<lparr>cv_question_id = ''Q2'', cv_option_codes = codes, cv_uuid = uuid,
      cv_year_of_birth = year_of_birth, cv_other_text = None, cv_referred_by = referred_by\<rparr>"

text \<open>
  The checkbox scenario of the specification: U1 selects X and Y in one submission, and
  three anonymous submissions select X, X and Y.
\<close>

definition tally_store :: state where
  "tally_store =
     example_store
       \<lparr>checkbox_responses_18 :=
          [\<lparr>c_question_id = ''Q2'', c_option_id = 4, c_uuid = Some ''U1'',
            c_option_code = ''X'', c_created_at = 30\<rparr>,
           \<lparr>c_question_id = ''Q2'', c_option_id = 5, c_uuid = Some ''U1'',
            c_option_code = ''Y'', c_created_at = 30\<rparr>,
           \<lparr>c_question_id = ''Q2'', c_option_id = 4, c_uuid = None,
            c_option_code = ''X'', c_created_at = 40\<rparr>,
           \<lparr>c_question_id = ''Q2'', c_option_id = 4, c_uuid = None,
            c_option_code = ''X'', c_created_at = 50\<rparr>,
           \<lparr>c_question_id = ''Q2'', c_option_id = 5, c_uuid = None,
            c_option_code = ''Y'', c_created_at = 60\<rparr>]\<rparr>"

text \<open>U1 votes X on Q2 and, two minutes later, votes again with X and Y.\<close>

definition revote_store :: state where
  "revote_store =
     snd (submit_checkbox_vote (interval_minutes 2)
            (checkbox_vote (Some ''U1'') None None [''X'', ''Y''])
            (snd (submit_checkbox_vote 0 (checkbox_vote (Some ''U1'') None None [''X''])
                    example_store)))"

text \<open>
  U1 votes A on Q1; U2 selects OTHER, is told that a text is needed, and sends one.
\<close>

definition other_store :: state where
  "other_store =
     submit_other_response 20
       \<lparr>ov_question_id = ''Q1'', ov_question_text = ''Which?'', ov_other_text = ''Both'',
        ov_uuid = Some ''U2'', ov_year_of_birth = None, ov_referred_by = None\<rparr>
       (snd (submit_vote 10 ''S2'' (single_vote (Some ''U2'') None None ''OTHER'')
          (snd (submit_vote 0 ''S1'' (single_vote (Some ''U1'') None None ''A'') example_store))))"

text \<open>A store with one user, R1, who can be named as referrer.\<close>

definition referrer_store :: state where
  "referrer_store =
     example_store\<lparr>users_18 := [\<lparr>u_uuid = ''R1'', u_year_of_birth = 2007, u_referred_by = None\<rparr>]\<rparr>"

text \<open>An anonymous vote for A on Q1.\<close>

definition anonymous_store :: state where
  "anonymous_store =
     snd (submit_vote 0 ''S1'' (single_vote None None None ''A'') example_store)"

text \<open>A checkbox vote for X on Q2 that carries the empty string as uuid.\<close>

definition empty_uuid_store :: state where
  "empty_uuid_store =
     snd (submit_checkbox_vote 0 (checkbox_vote (Some []) None None [''X'']) example_store)"

section \<open>Properties\<close>

subsection \<open>Block completion\<close>

lemma answered_eq_iff:
  assumes "distinct (map fst qts)"
  shows "set (map fst qts) = answered st uuid qts \<longleftrightarrow> (\<forall>qt\<in>set qts. resp_result st uuid qt)"
proof
  assume eq: "set (map fst qts) = answered st uuid qts"
  show "\<forall>qt\<in>set qts. resp_result st uuid qt"
  proof
    fix qt assume qt: "qt \<in> set qts"
    then have "fst qt \<in> answered st uuid qts" using eq by force
    then obtain qt' where q': "qt' \<in> set qts" "resp_result st uuid qt'" "fst qt' = fst qt"
      by (auto simp: answered_def)
    from assms qt q'(1) q'(3) have "qt' = qt"
      by (metis distinct_map inj_onD)
    with q'(2) show "resp_result st uuid qt" by simp
  qed
next
  assume "\<forall>qt\<in>set qts. resp_result st uuid qt"
  then have "filter (resp_result st uuid) qts = qts" by (simp add: filter_id_conv)
  then show "set (map fst qts) = answered st uuid qts" by (simp add: answered_def)
qed

lemma qid_types_distinct:
  "unique_question_ids st \<Longrightarrow> distinct (map fst (qid_types st c b))"
  by (simp add: unique_question_ids_def qid_types_def comp_def distinct_map_filter)

lemma all_answered_alt:
  assumes "unique_question_ids st"
  shows "all_block_questions_answered st uuid c b \<longleftrightarrow>
     qid_types st c b \<noteq> [] \<and> (\<forall>qt\<in>set (qid_types st c b). resp_result st uuid qt)"
  using answered_eq_iff [OF qid_types_distinct [OF assms], of c b st uuid]
  by (simp add: all_block_questions_answered_def Let_def)

text \<open>
  C3. For every user, category and block, \<open>all_block_questions_answered\<close> returns false
  when the block has no question; otherwise it returns true exactly when every question
  of the block has at least one vote row of that user in the table of its kind
  (\<open>checkbox_responses_18\<close> for a checkbox question, \<open>responses_18\<close> for a single-select
  one), and so false whenever some question lacks such a row. Question ids are the
  store's key for questions.
\<close>

theorem all_block_questions_answered_iff:
  assumes "unique_question_ids st"
  shows "all_block_questions_answered st uuid category_id block \<longleftrightarrow>
     (\<exists>q\<in>set (questions_18 st). q_category_id q = category_id \<and> q_block q = Some block) \<and>
     (\<forall>q\<in>set (questions_18 st). q_category_id q = category_id \<and> q_block q = Some block \<longrightarrow>
        (if q_check_box q
         then \<exists>r\<in>set (checkbox_responses_18 st).
                c_uuid r = Some uuid \<and> c_question_id r = q_question_id q
         else \<exists>r\<in>set (responses_18 st).
                r_uuid r = Some uuid \<and> r_question_id r = q_question_id q))"
proof -
  let ?qts = "qid_types st category_id block"
  have ne: "?qts \<noteq> [] \<longleftrightarrow>
      (\<exists>q\<in>set (questions_18 st). q_category_id q = category_id \<and> q_block q = Some block)"
    by (auto simp: qid_types_def filter_empty_conv)
  have every: "(\<forall>qt\<in>set ?qts. resp_result st uuid qt) \<longleftrightarrow>
     (\<forall>q\<in>set (questions_18 st). q_category_id q = category_id \<and> q_block q = Some block \<longrightarrow>
        (if q_check_box q
         then \<exists>r\<in>set (checkbox_responses_18 st).
                c_uuid r = Some uuid \<and> c_question_id r = q_question_id q
         else \<exists>r\<in>set (responses_18 st).
                r_uuid r = Some uuid \<and> r_question_id r = q_question_id q))"
    by (auto simp: qid_types_def resp_result_def list_ex_iff)
  have "all_block_questions_answered st uuid category_id block \<longleftrightarrow>
      ?qts \<noteq> [] \<and> (\<forall>qt\<in>set ?qts. resp_result st uuid qt)"
    using answered_eq_iff [OF qid_types_distinct [OF assms], of category_id block st uuid]
    by (simp add: all_block_questions_answered_def Let_def)
  then show ?thesis using ne every by simp
qed

text \<open>
  In the example, U1 has completed block 1, U2 (who lacks a row for Q2) has not, and the
  empty block 2 is complete for nobody.
\<close>

theorem all_block_questions_answered_iff_witness:
  "unique_question_ids answered_store
   \<and> all_block_questions_answered answered_store ''U1'' 1 1
   \<and> \<not> all_block_questions_answered answered_store ''U2'' 1 1
   \<and> \<not> all_block_questions_answered answered_store ''U1'' 1 2"
proof -
  have u: "unique_question_ids answered_store"
    by (simp add: unique_question_ids_def answered_store_def example_store_def)
  show ?thesis
    using u all_block_questions_answered_iff [OF u, of "''U1''" 1 1]
      all_block_questions_answered_iff [OF u, of "''U2''" 1 1]
      all_block_questions_answered_iff [OF u, of "''U1''" 1 2]
    by (simp add: answered_store_def example_store_def)
qed

subsection \<open>The progress upsert\<close>

lemma conflict_key: "conflict u c b p \<longleftrightarrow> progress_key p = (u, c, b)"
  by (auto simp: conflict_def progress_key_def)

lemma filter_key_single:
  "distinct (map key xs) \<Longrightarrow> x \<in> set xs \<Longrightarrow> filter (\<lambda>y. key y = key x) xs = [x]"
proof (induction xs)
  case Nil
  then show ?case by simp
next
  case (Cons a xs)
  show ?case
  proof (cases "a = x")
    case True
    with Cons.prems have "key x \<notin> key ` set xs" by simp
    then have "\<forall>y\<in>set xs. key y \<noteq> key x" by (metis imageI)
    then have "filter (\<lambda>y. key y = key x) xs = []" by (simp add: filter_empty_conv)
    with True show ?thesis by simp
  next
    case False
    with Cons.prems have "x \<in> set xs" "key a \<noteq> key x" by force+
    with Cons show ?thesis by simp
  qed
qed

lemma mark_once:
  fixes st :: state and now :: timestamp and u :: string and c b :: int
  assumes "unique_progress st"
  defines "st' \<equiv> mark_block_completed now st u c b"
  shows "filter (conflict u c b) (user_block_progress_18 st') =
           [\<lparr>p_uuid = u, p_category_id = c, p_block = b, p_completed_at = now\<rparr>]"
    and "filter (\<lambda>p. \<not> conflict u c b p) (user_block_progress_18 st') =
           filter (\<lambda>p. \<not> conflict u c b p) (user_block_progress_18 st)"
    and "unique_progress st'"
proof -
  let ?tbl = "user_block_progress_18 st"
  from assms(1) have d: "distinct (map progress_key ?tbl)"
    by (simp add: unique_progress_def)
  let ?upd = "\<lambda>p. if conflict u c b p then p\<lparr>p_completed_at := now\<rparr> else p"
  have key_upd: "progress_key (?upd p) = progress_key p" for p
    by (simp add: progress_key_def)
  have conf_upd: "conflict u c b (?upd p) = conflict u c b p" for p
    by (simp add: conflict_def)
  show "filter (conflict u c b) (user_block_progress_18 st') =
           [\<lparr>p_uuid = u, p_category_id = c, p_block = b, p_completed_at = now\<rparr>]"
  proof (cases "list_ex (conflict u c b) ?tbl")
    case True
    then obtain p where p: "p \<in> set ?tbl" "conflict u c b p" by (auto simp: list_ex_iff)
    then have "filter (\<lambda>y. progress_key y = progress_key p) ?tbl = [p]"
      using d filter_key_single by fast
    moreover have "(\<lambda>y. progress_key y = progress_key p) = conflict u c b"
      using p(2) by (auto simp: conflict_key)
    ultimately have one: "filter (conflict u c b) ?tbl = [p]" by simp
    have "filter (conflict u c b) (map ?upd ?tbl) = map ?upd (filter (conflict u c b) ?tbl)"
      by (simp add: filter_map comp_def conf_upd)
    also have "\<dots> = [p\<lparr>p_completed_at := now\<rparr>]" using one p(2) by simp
    also have "\<dots> = [\<lparr>p_uuid = u, p_category_id = c, p_block = b, p_completed_at = now\<rparr>]"
      using p(2) by (simp add: conflict_def)
    finally show ?thesis using True by (simp add: st'_def mark_block_completed_def)
  next
    case False
    then have "filter (conflict u c b) ?tbl = []"
      by (simp add: list_ex_iff filter_empty_conv)
    with False show ?thesis
      by (simp add: st'_def mark_block_completed_def conflict_def)
  qed
  show "filter (\<lambda>p. \<not> conflict u c b p) (user_block_progress_18 st') =
           filter (\<lambda>p. \<not> conflict u c b p) (user_block_progress_18 st)"
  proof (cases "list_ex (conflict u c b) ?tbl")
    case True
    have "filter (\<lambda>p. \<not> conflict u c b p) (map ?upd ?tbl) =
            map ?upd (filter (\<lambda>p. \<not> conflict u c b p) ?tbl)"
      by (simp add: filter_map comp_def conf_upd)
    also have "\<dots> = filter (\<lambda>p. \<not> conflict u c b p) ?tbl"
      by (rule map_idI) simp
    finally show ?thesis using True by (simp add: st'_def mark_block_completed_def)
  next
    case False
    then show ?thesis by (simp add: st'_def mark_block_completed_def conflict_def)
  qed
  have "distinct (map progress_key (user_block_progress_18 st'))"
  proof (cases "list_ex (conflict u c b) ?tbl")
    case True
    have "map progress_key (map ?upd ?tbl) = map progress_key ?tbl"
      by (simp add: comp_def key_upd)
    with d have "distinct (map progress_key (map ?upd ?tbl))" by (simp only:)
    with True show ?thesis by (simp add: st'_def mark_block_completed_def del: map_map)
  next
    case False
    then have "(u, c, b) \<notin> progress_key ` set ?tbl"
      by (auto simp: list_ex_iff conflict_key)
    with False d show ?thesis
      by (simp add: st'_def mark_block_completed_def progress_key_def)
  qed
  then show "unique_progress st'" by (simp add: unique_progress_def)
qed

lemma mark_repeatedly_snoc:
  "mark_repeatedly (nows @ [now]) st u c b =
     mark_block_completed now (mark_repeatedly nows st u c b) u c b"
  by (simp add: mark_repeatedly_def)

lemma mark_repeatedly_inv:
  "unique_progress st \<Longrightarrow>
   unique_progress (mark_repeatedly nows st u c b) \<and>
   filter (\<lambda>p. \<not> conflict u c b p) (user_block_progress_18 (mark_repeatedly nows st u c b)) =
     filter (\<lambda>p. \<not> conflict u c b p) (user_block_progress_18 st)"
proof (induction nows rule: rev_induct)
  case Nil
  then show ?case by (simp add: mark_repeatedly_def)
next
  case (snoc now nows)
  then show ?case
    using mark_once(2,3) [where st = "mark_repeatedly nows st u c b" and now = now and u = u
        and c = c and b = b]
    by (simp add: mark_repeatedly_snoc)
qed

text \<open>
  C8. \<open>mark_block_completed\<close> is idempotent: for every (user, category, block), after
  any number of calls (at least one) the store holds exactly one progress row for the
  triple, and its completion timestamp is that of the latest call.
\<close>

theorem mark_block_completed_idempotent:
  assumes "unique_progress st" and "nows \<noteq> []"
  shows "filter (conflict uuid category_id block)
           (user_block_progress_18 (mark_repeatedly nows st uuid category_id block)) =
         [\<lparr>p_uuid = uuid, p_category_id = category_id, p_block = block,
           p_completed_at = last nows\<rparr>]"
proof -
  from assms(2) obtain now ts where t: "nows = ts @ [now]"
    by (metis rev_exhaust)
  show ?thesis
    using mark_once(1) [where st = "mark_repeatedly ts st uuid category_id block" and now = now
        and u = uuid and c = category_id and b = block]
      mark_repeatedly_inv [OF assms(1), of ts uuid category_id block]
    by (simp add: t mark_repeatedly_snoc)
qed

text \<open>Three calls for U1, who has a row, and two for U3, who has none.\<close>

theorem mark_block_completed_idempotent_witness:
  "unique_progress answered_store \<and> [100, 200, 300] \<noteq> ([] :: timestamp list)
   \<and> filter (conflict ''U1'' 1 1)
       (user_block_progress_18 (mark_repeatedly [100, 200, 300] answered_store ''U1'' 1 1)) =
     [\<lparr>p_uuid = ''U1'', p_category_id = 1, p_block = 1, p_completed_at = 300\<rparr>]
   \<and> filter (conflict ''U3'' 1 1)
       (user_block_progress_18 (mark_repeatedly [100, 200] answered_store ''U3'' 1 1)) =
     [\<lparr>p_uuid = ''U3'', p_category_id = 1, p_block = 1, p_completed_at = 200\<rparr>]"
proof -
  have u: "unique_progress answered_store"
    by (simp add: unique_progress_def progress_key_def answered_store_def example_store_def)
  have n: "[100, 200, 300] \<noteq> ([] :: timestamp list)" "[100, 200] \<noteq> ([] :: timestamp list)"
    by simp_all
  show ?thesis
    using u mark_block_completed_idempotent [OF u n(1), of "''U1''" 1 1]
      mark_block_completed_idempotent [OF u n(2), of "''U3''" 1 1]
    by simp
qed

subsection \<open>What the handlers leave untouched\<close>

lemma handle_user_creation_frame [simp]:
  "questions_18 (handle_user_creation st u y r) = questions_18 st"
  "options_18 (handle_user_creation st u y r) = options_18 st"
  "responses_18 (handle_user_creation st u y r) = responses_18 st"
  "checkbox_responses_18 (handle_user_creation st u y r) = checkbox_responses_18 st"
  "other_responses_18 (handle_user_creation st u y r) = other_responses_18 st"
  "user_block_progress_18 (handle_user_creation st u y r) = user_block_progress_18 st"
  "session_responses (handle_user_creation st u y r) = session_responses st"
  by (simp_all add: handle_user_creation_def split: option.splits)

lemma handle_user_creation_no_birth_year [simp]:
  "handle_user_creation st u None r = st"
  "handle_user_creation st None y r = st"
  by (simp_all add: handle_user_creation_def split: option.splits)

lemma mark_block_completed_frame [simp]:
  "users_18 (mark_block_completed now st u c b) = users_18 st"
  "questions_18 (mark_block_completed now st u c b) = questions_18 st"
  "options_18 (mark_block_completed now st u c b) = options_18 st"
  "responses_18 (mark_block_completed now st u c b) = responses_18 st"
  "checkbox_responses_18 (mark_block_completed now st u c b) = checkbox_responses_18 st"
  "other_responses_18 (mark_block_completed now st u c b) = other_responses_18 st"
  "session_responses (mark_block_completed now st u c b) = session_responses st"
  by (simp_all add: mark_block_completed_def)

lemma check_block_frame [simp]:
  "users_18 (check_block now st u q) = users_18 st"
  "questions_18 (check_block now st u q) = questions_18 st"
  "options_18 (check_block now st u q) = options_18 st"
  "responses_18 (check_block now st u q) = responses_18 st"
  "checkbox_responses_18 (check_block now st u q) = checkbox_responses_18 st"
  "other_responses_18 (check_block now st u q) = other_responses_18 st"
  "session_responses (check_block now st u q) = session_responses st"
  by (simp_all add: check_block_def split: option.splits)

lemma check_block_anonymous [simp]: "check_block now st None q = st"
  by (simp add: check_block_def split: option.splits)

lemma recent_vote_anonymous [simp]: "\<not> recent_vote now st None q"
  by (simp add: recent_vote_def sql_eq_def list_ex_iff)

lemma cb_recent_vote_anonymous [simp]: "\<not> cb_recent_vote now st None q"
  by (simp add: cb_recent_vote_def sql_eq_def list_ex_iff)

lemma insert_checkbox_frame [simp]:
  "users_18 (insert_checkbox now v c st) = users_18 st"
  "questions_18 (insert_checkbox now v c st) = questions_18 st"
  "options_18 (insert_checkbox now v c st) = options_18 st"
  "responses_18 (insert_checkbox now v c st) = responses_18 st"
  "other_responses_18 (insert_checkbox now v c st) = other_responses_18 st"
  "user_block_progress_18 (insert_checkbox now v c st) = user_block_progress_18 st"
  "session_responses (insert_checkbox now v c st) = session_responses st"
  by (simp_all add: insert_checkbox_def split: option.splits)

lemma fold_insert_checkbox_frame [simp]:
  "users_18 (fold (insert_checkbox now v) cs st) = users_18 st"
  "questions_18 (fold (insert_checkbox now v) cs st) = questions_18 st"
  "options_18 (fold (insert_checkbox now v) cs st) = options_18 st"
  "responses_18 (fold (insert_checkbox now v) cs st) = responses_18 st"
  "other_responses_18 (fold (insert_checkbox now v) cs st) = other_responses_18 st"
  "user_block_progress_18 (fold (insert_checkbox now v) cs st) = user_block_progress_18 st"
  "session_responses (fold (insert_checkbox now v) cs st) = session_responses st"
  by (induction cs arbitrary: st; simp)+

lemma insert_other_frame [simp]:
  "users_18 (insert_other now v st) = users_18 st"
  "questions_18 (insert_other now v st) = questions_18 st"
  "options_18 (insert_other now v st) = options_18 st"
  "responses_18 (insert_other now v st) = responses_18 st"
  "checkbox_responses_18 (insert_other now v st) = checkbox_responses_18 st"
  "user_block_progress_18 (insert_other now v st) = user_block_progress_18 st"
  "session_responses (insert_other now v st) = session_responses st"
  by (simp_all add: insert_other_def split: option.splits)

lemma insert_response_frame [simp]:
  "users_18 (insert_response now st v opt) = users_18 st"
  "questions_18 (insert_response now st v opt) = questions_18 st"
  "options_18 (insert_response now st v opt) = options_18 st"
  "checkbox_responses_18 (insert_response now st v opt) = checkbox_responses_18 st"
  "other_responses_18 (insert_response now st v opt) = other_responses_18 st"
  "user_block_progress_18 (insert_response now st v opt) = user_block_progress_18 st"
  "session_responses (insert_response now st v opt) = session_responses st"
  by (simp_all add: insert_response_def)

subsection \<open>Running the handlers on the example stores\<close>

lemmas handler_defs = submit_vote_def submit_vote_try_def submit_checkbox_vote_def
  submit_other_response_def recent_vote_def cb_recent_vote_def sql_eq_def Let_def
  insert_checkbox_def insert_response_def insert_other_def find_option_def first_def
  interval_minutes_def QUESTION_COOLDOWN_def handle_user_creation_def user_exists_def
  truthy_str_def truthy_int_def check_block_def all_block_questions_answered_def qid_types_def
  answered_def resp_result_def mark_block_completed_def conflict_def rollback_def
  single_vote_def checkbox_vote_def

lemmas tally_defs = results_dict_def option_codes_def question_options_def
  is_checkbox_def initial_results_def anon_votes_def user_votes_def add_user_votes_def
  add_if_present_def resp_counts_def get_question_results_def custom_responses_def
  option_texts_def format_entry_def

lemma revote_store_rows:
  "checkbox_responses_18 revote_store =
     [\<lparr>c_question_id = ''Q2'', c_option_id = 4, c_uuid = Some ''U1'', c_option_code = ''X'',
       c_created_at = 0\<rparr>,
      \<lparr>c_question_id = ''Q2'', c_option_id = 4, c_uuid = Some ''U1'', c_option_code = ''X'',
       c_created_at = 120000000\<rparr>,
      \<lparr>c_question_id = ''Q2'', c_option_id = 5, c_uuid = Some ''U1'', c_option_code = ''Y'',
       c_created_at = 120000000\<rparr>]"
  by (simp add: revote_store_def handler_defs example_store_def)

lemma revote_store_frame:
  "questions_18 revote_store = questions_18 example_store"
  "options_18 revote_store = options_18 example_store"
  by (simp_all add: revote_store_def submit_checkbox_vote_def Let_def)

lemma other_store_tables:
  "responses_18 other_store =
     [\<lparr>r_question_id = ''Q1'', r_option_id = 1, r_uuid = Some ''U1'',
       r_option_code = Some ''A'', r_created_at = 0\<rparr>]"
  "other_responses_18 other_store =
     [\<lparr>x_question_id = ''Q1'', x_question_text = ''Which?'', x_other_text = ''Both'',
       x_submitted_at = 20, x_uuid = Some ''U2''\<rparr>]"
  "questions_18 other_store = questions_18 example_store"
  "options_18 other_store = options_18 example_store"
  by (simp_all add: other_store_def handler_defs example_store_def)

lemma answered_store_codes:
  "option_codes answered_store ''Q1'' = [''A'', ''B'', ''OTHER'']"
  by (simp add: option_codes_def question_options_def answered_store_def example_store_def)

lemma anonymous_store_tables:
  "responses_18 anonymous_store =
     [\<lparr>r_question_id = ''Q1'', r_option_id = 1, r_uuid = None, r_option_code = None,
       r_created_at = 0\<rparr>]"
  "questions_18 anonymous_store = questions_18 example_store"
  "options_18 anonymous_store = options_18 example_store"
  by (simp_all add: anonymous_store_def handler_defs example_store_def)

subsection \<open>The OTHER sentinel and unknown codes\<close>

text \<open>
  C7. A single-select submission whose option code is \<open>"OTHER"\<close>, and which the cooldown
  does not block, is answered with status \<open>other_needed\<close> and writes no row to
  \<open>responses_18\<close>. The option lookup and the insert are not reached: the progress table
  is untouched too, and the answer is the same whatever the options table holds.
\<close>

theorem submit_vote_other_needed:
  assumes "v_option_code vote = ''OTHER''"
    and "\<not> recent_vote now st (v_uuid vote) (v_question_id vote)"
  shows "(\<exists>session_id previous.
            fst (submit_vote now sid vote st) = Inr (Other_needed session_id previous))
       \<and> map_sum id status (fst (submit_vote now sid vote st)) = Inr ''other_needed''
       \<and> responses_18 (snd (submit_vote now sid vote st)) = responses_18 st
       \<and> user_block_progress_18 (snd (submit_vote now sid vote st)) = user_block_progress_18 st
       \<and> fst (submit_vote now sid vote (st\<lparr>options_18 := opts\<rparr>)) =
           fst (submit_vote now sid vote st)"
proof -
  have r: "\<not> recent_vote now (st\<lparr>options_18 := opts\<rparr>) (v_uuid vote) (v_question_id vote)"
    using assms(2) by (simp add: recent_vote_def)
  have s: "session_responses (handle_user_creation (st\<lparr>options_18 := opts\<rparr>) u y rf) =
           session_responses (handle_user_creation st u y rf)" for u y rf
    by simp
  show ?thesis
    using assms r by (simp add: submit_vote_def submit_vote_try_def Let_def)
qed

text \<open>U1 selects OTHER on Q1, five minutes after the earlier vote.\<close>

theorem submit_vote_other_needed_witness:
  "v_option_code (single_vote (Some ''U1'') None None ''OTHER'') = ''OTHER''
   \<and> \<not> recent_vote (interval_minutes 5) answered_store (Some ''U1'') ''Q1''
   \<and> fst (submit_vote (interval_minutes 5) ''S1'' (single_vote (Some ''U1'') None None ''OTHER'')
            answered_store) = Inr (Other_needed ''S1'' [(''Q1'', ''OTHER'')])
   \<and> responses_18 (snd (submit_vote (interval_minutes 5) ''S1''
         (single_vote (Some ''U1'') None None ''OTHER'') answered_store)) =
       responses_18 answered_store"
proof -
  let ?vote = "single_vote (Some ''U1'') None None ''OTHER''"
  have h1: "v_option_code ?vote = ''OTHER''" by (simp add: single_vote_def)
  have h2: "\<not> recent_vote (interval_minutes 5) answered_store (v_uuid ?vote) (v_question_id ?vote)"
    by (simp add: handler_defs answered_store_def example_store_def)
  have r: "fst (submit_vote (interval_minutes 5) ''S1'' ?vote answered_store) =
             Inr (Other_needed ''S1'' [(''Q1'', ''OTHER'')])"
    by (simp add: handler_defs answered_store_def example_store_def)
  show ?thesis
    using submit_vote_other_needed [OF h1 h2, of "''S1''"] h2 r
    by (simp add: single_vote_def)
qed

text \<open>
  C5. A single-select submission whose (question id, option code) pair resolves to no
  option, with a code other than \<open>"OTHER"\<close> and no cooldown in force: the \<open>try\<close> block
  raises \<open>HTTPException(status_code=400, detail="Invalid option")\<close>, the handler's
  \<open>except Exception\<close> clause catches it and raises \<open>HTTPException(status_code=500)\<close> in
  its place. So the caller sees status 500, the status of a server fault, not the client
  error 400. The transaction is rolled back: no response row and no user row is kept.
\<close>

theorem submit_vote_invalid_option:
  assumes "find_option st (v_question_id vote) (v_option_code vote) = None"
    and "v_option_code vote \<noteq> ''OTHER''"
    and "\<not> recent_vote now st (v_uuid vote) (v_question_id vote)"
  shows "fst (submit_vote now sid vote st) =
           Inl (HTTPException 500 (Str (HTTPException 400 (Text ''Invalid option''))))
       \<and> responses_18 (snd (submit_vote now sid vote st)) = responses_18 st
       \<and> users_18 (snd (submit_vote now sid vote st)) = users_18 st"
  using assms
  by (simp add: submit_vote_def submit_vote_try_def Let_def rollback_def find_option_def)

text \<open>U1 sends the code Z, which Q1 does not define.\<close>

theorem submit_vote_invalid_option_witness:
  "find_option example_store ''Q1'' ''Z'' = None \<and> ''Z'' \<noteq> ''OTHER''
   \<and> \<not> recent_vote 0 example_store (Some ''U1'') ''Q1''
   \<and> fst (submit_vote 0 ''S1'' (single_vote (Some ''U1'') None None ''Z'') example_store) =
       Inl (HTTPException 500 (Str (HTTPException 400 (Text ''Invalid option''))))
   \<and> status_code (HTTPException 500 (Str (HTTPException 400 (Text ''Invalid option'')))) = Some 500
   \<and> responses_18 (snd (submit_vote 0 ''S1'' (single_vote (Some ''U1'') None None ''Z'')
         example_store)) = []"
proof -
  let ?vote = "single_vote (Some ''U1'') None None ''Z''"
  have h1: "find_option example_store (v_question_id ?vote) (v_option_code ?vote) = None"
    by (simp add: single_vote_def find_option_def first_def example_store_def)
  have h2: "v_option_code ?vote \<noteq> ''OTHER''" by (simp add: single_vote_def)
  have h3: "\<not> recent_vote 0 example_store (v_uuid ?vote) (v_question_id ?vote)"
    by (simp add: recent_vote_def example_store_def)
  have e: "responses_18 example_store = []" by (simp add: example_store_def)
  show ?thesis
    using submit_vote_invalid_option [OF h1 h2 h3, of "''S1''"] h1 h3
    by (simp add: single_vote_def e)
qed

subsection \<open>Anonymous votes\<close>

lemma resp_result_without_anonymous:
  "resp_result (without_anonymous_rows st) u qt = resp_result st u qt"
  by (auto simp: resp_result_def without_anonymous_rows_def list_ex_iff)

lemma all_answered_without_anonymous:
  "all_block_questions_answered (without_anonymous_rows st) u c b =
   all_block_questions_answered st u c b"
proof -
  have "qid_types (without_anonymous_rows st) c b = qid_types st c b"
    by (simp add: qid_types_def without_anonymous_rows_def)
  moreover have "resp_result (without_anonymous_rows st) u = resp_result st u"
    by (rule ext) (rule resp_result_without_anonymous)
  ultimately show ?thesis
    by (simp add: all_block_questions_answered_def answered_def)
qed

lemma recent_vote_without_anonymous:
  "recent_vote now (without_anonymous_rows st) u q = recent_vote now st u q"
  "cb_recent_vote now (without_anonymous_rows st) u q = cb_recent_vote now st u q"
  by (auto simp: recent_vote_def cb_recent_vote_def without_anonymous_rows_def list_ex_iff
      sql_eq_def split: option.splits)

text \<open>
  With the uuid absent: the submission is never answered \<open>already_voted\<close>, by
  \<open>submit_vote\<close> or by \<open>submit_checkbox_vote\<close>, and leaves the progress table as it
  was. Vote rows without a uuid take no part in the cooldown check or in the block
  check: both give the same result on the store without these rows.
\<close>

theorem anonymous_votes_skip_cooldown_and_progress:
  assumes "v_uuid vote = None" and "cv_uuid cvote = None"
  shows "(\<forall>m. fst (submit_vote now sid vote st) \<noteq> Inr (Already_voted m))
   \<and> user_block_progress_18 (snd (submit_vote now sid vote st)) = user_block_progress_18 st
   \<and> fst (submit_checkbox_vote now cvote st) = Inr Cb_success
   \<and> user_block_progress_18 (snd (submit_checkbox_vote now cvote st)) =
       user_block_progress_18 st
   \<and> recent_vote now (without_anonymous_rows st) uuid qid = recent_vote now st uuid qid
   \<and> cb_recent_vote now (without_anonymous_rows st) uuid qid = cb_recent_vote now st uuid qid
   \<and> all_block_questions_answered (without_anonymous_rows st) u category_id block =
       all_block_questions_answered st u category_id block"
proof -
  have a: "fst (submit_vote now sid vote st) \<noteq> Inr (Already_voted m)
      \<and> user_block_progress_18 (snd (submit_vote now sid vote st)) = user_block_progress_18 st"
    for m
    using assms(1)
    by (simp add: submit_vote_def submit_vote_try_def Let_def rollback_def
        split: option.splits)
  have b: "fst (submit_checkbox_vote now cvote st) = Inr Cb_success
      \<and> user_block_progress_18 (snd (submit_checkbox_vote now cvote st)) =
          user_block_progress_18 st"
    using assms(2) by (simp add: submit_checkbox_vote_def Let_def)
  show ?thesis
    using a b recent_vote_without_anonymous all_answered_without_anonymous by blast
qed

text \<open>Anonymous votes on Q1 and Q2, within a minute of the rows already stored.\<close>

theorem anonymous_votes_witness:
  "v_uuid (single_vote None None None ''A'') = None
   \<and> cv_uuid (checkbox_vote None None None [''X'', ''Y'']) = None
   \<and> fst (submit_vote 40 ''S1'' (single_vote None None None ''A'') answered_store) =
       Inr (Success ''S1'' [(''Q1'', ''A'')])
   \<and> user_block_progress_18 (snd (submit_vote 40 ''S1'' (single_vote None None None ''A'')
         answered_store)) = user_block_progress_18 answered_store
   \<and> fst (submit_checkbox_vote 40 (checkbox_vote None None None [''X'', ''Y'']) answered_store) =
       Inr Cb_success
   \<and> user_block_progress_18 (snd (submit_checkbox_vote 40
         (checkbox_vote None None None [''X'', ''Y'']) answered_store)) =
       user_block_progress_18 answered_store"
proof -
  have h1: "v_uuid (single_vote None None None ''A'') = None" by (simp add: single_vote_def)
  have h2: "cv_uuid (checkbox_vote None None None [''X'', ''Y'']) = None"
    by (simp add: checkbox_vote_def)
  have r: "fst (submit_vote 40 ''S1'' (single_vote None None None ''A'') answered_store) =
       Inr (Success ''S1'' [(''Q1'', ''A'')])"
    by (simp add: handler_defs answered_store_def example_store_def)
  show ?thesis
    using anonymous_votes_skip_cooldown_and_progress [OF h1 h2, of 40 "''S1''" answered_store]
      h1 h2 r
    by simp
qed

subsection \<open>The revote cooldown\<close>

lemma fold_insert_checkbox_rows:
  "checkbox_responses_18 (fold (insert_checkbox now vote) codes st) =
     checkbox_responses_18 st @
     concat (map (\<lambda>code. case find_option st (cv_question_id vote) code of
                            None \<Rightarrow> []
                          | Some opt \<Rightarrow>
                              [\<lparr>c_question_id = cv_question_id vote, c_option_id = o_id opt,
                                c_uuid = cv_uuid vote, c_option_code = code,
                                c_created_at = now\<rparr>]) codes)"
proof (induction codes arbitrary: st)
  case Nil
  then show ?case by simp
next
  case (Cons code codes)
  have o: "find_option (insert_checkbox now vote code st) q c = find_option st q c" for q c
    by (simp add: find_option_def)
  show ?case
    by (simp add: Cons.IH o) (simp add: insert_checkbox_def split: option.splits)
qed

lemma recent_vote_iff:
  "recent_vote now st (Some u) q \<longleftrightarrow>
     (\<exists>r\<in>set (responses_18 st). r_uuid r = Some u \<and> r_question_id r = q
        \<and> now - QUESTION_COOLDOWN < r_created_at r)"
  by (simp add: recent_vote_def sql_eq_def list_ex_iff)

lemma cb_recent_vote_iff:
  "cb_recent_vote now st (Some u) q \<longleftrightarrow>
     (\<exists>r\<in>set (checkbox_responses_18 st). c_uuid r = Some u \<and> c_question_id r = q
        \<and> now - QUESTION_COOLDOWN < c_created_at r)"
  by (simp add: cb_recent_vote_def sql_eq_def list_ex_iff)

text \<open>
  C4. For an identified user and a question: while the handler's table holds a row of
  the pair that is younger than the cooldown, \<open>submit_vote\<close> and \<open>submit_checkbox_vote\<close>
  answer \<open>already_voted\<close> and leave the whole state as it was. Once every row of the
  pair is at least as old as the cooldown, a single-select submission of a code that
  resolves (and is not \<open>"OTHER"\<close>) succeeds and appends its row, and a checkbox submission
  succeeds and appends one row for each of its codes that resolves.
\<close>

theorem revote_cooldown:
  assumes "v_uuid vote = Some u" and "cv_uuid cvote = Some u"
  shows
    "((\<exists>r\<in>set (responses_18 st). r_uuid r = Some u \<and> r_question_id r = v_question_id vote
          \<and> now - QUESTION_COOLDOWN < r_created_at r) \<longrightarrow>
        submit_vote now sid vote st = (Inr (Already_voted already_voted_message), st))
   \<and> ((\<exists>r\<in>set (checkbox_responses_18 st). c_uuid r = Some u \<and> c_question_id r = cv_question_id cvote
          \<and> now - QUESTION_COOLDOWN < c_created_at r) \<longrightarrow>
        submit_checkbox_vote now cvote st = (Inr (Cb_already_voted already_voted_message), st))
   \<and> ((\<forall>r\<in>set (responses_18 st). r_uuid r = Some u \<and> r_question_id r = v_question_id vote
          \<longrightarrow> r_created_at r \<le> now - QUESTION_COOLDOWN)
        \<and> u \<noteq> [] \<and> v_option_code vote \<noteq> ''OTHER''
        \<and> find_option st (v_question_id vote) (v_option_code vote) = Some opt \<longrightarrow>
        (\<exists>session_id previous.
           fst (submit_vote now sid vote st) = Inr (Success session_id previous))
        \<and> responses_18 (snd (submit_vote now sid vote st)) =
            responses_18 st @
            [\<lparr>r_question_id = v_question_id vote, r_option_id = o_id opt, r_uuid = Some u,
              r_option_code = Some (v_option_code vote), r_created_at = now\<rparr>])
   \<and> ((\<forall>r\<in>set (checkbox_responses_18 st). c_uuid r = Some u \<and> c_question_id r = cv_question_id cvote
          \<longrightarrow> c_created_at r \<le> now - QUESTION_COOLDOWN) \<longrightarrow>
        fst (submit_checkbox_vote now cvote st) = Inr Cb_success
        \<and> checkbox_responses_18 (snd (submit_checkbox_vote now cvote st)) =
            checkbox_responses_18 st @ checkbox_rows now cvote st)"
proof -
  have a: "submit_vote now sid vote st = (Inr (Already_voted already_voted_message), st)"
    if "recent_vote now st (Some u) (v_question_id vote)"
    using that assms(1) by (simp add: submit_vote_def submit_vote_try_def)
  have b: "submit_checkbox_vote now cvote st = (Inr (Cb_already_voted already_voted_message), st)"
    if "cb_recent_vote now st (Some u) (cv_question_id cvote)"
    using that assms(2) by (simp add: submit_checkbox_vote_def)
  have c: "(\<exists>session_id previous.
           fst (submit_vote now sid vote st) = Inr (Success session_id previous))
        \<and> responses_18 (snd (submit_vote now sid vote st)) =
            responses_18 st @
            [\<lparr>r_question_id = v_question_id vote, r_option_id = o_id opt, r_uuid = Some u,
              r_option_code = Some (v_option_code vote), r_created_at = now\<rparr>]"
    if "\<not> recent_vote now st (Some u) (v_question_id vote)" "u \<noteq> []" "v_option_code vote \<noteq> ''OTHER''"
      "find_option st (v_question_id vote) (v_option_code vote) = Some opt"
  proof -
    have f: "find_option (handle_user_creation st (Some u) y rf
               \<lparr>session_responses := m\<rparr>) (v_question_id vote) (v_option_code vote) = Some opt" for y rf m
      using that(4) by (simp add: find_option_def)
    show ?thesis
      using that assms(1)
      by (simp add: submit_vote_def submit_vote_try_def Let_def f insert_response_def
          truthy_str_def)
  qed
  have d: "fst (submit_checkbox_vote now cvote st) = Inr Cb_success
        \<and> checkbox_responses_18 (snd (submit_checkbox_vote now cvote st)) =
            checkbox_responses_18 st @ checkbox_rows now cvote st"
    if "\<not> cb_recent_vote now st (Some u) (cv_question_id cvote)"
  proof -
    have f: "find_option (handle_user_creation st uu y rf) q c = find_option st q c" for uu y rf q c
      by (simp add: find_option_def)
    show ?thesis
      using that assms(2)
      by (simp add: submit_checkbox_vote_def Let_def fold_insert_checkbox_rows checkbox_rows_def f)
  qed
  have nr: "\<not> recent_vote now st (Some u) (v_question_id vote)"
    if "\<forall>r\<in>set (responses_18 st). r_uuid r = Some u \<and> r_question_id r = v_question_id vote
          \<longrightarrow> r_created_at r \<le> now - QUESTION_COOLDOWN"
    using that by (fastforce simp: recent_vote_iff)
  have ncr: "\<not> cb_recent_vote now st (Some u) (cv_question_id cvote)"
    if "\<forall>r\<in>set (checkbox_responses_18 st). c_uuid r = Some u \<and> c_question_id r = cv_question_id cvote
          \<longrightarrow> c_created_at r \<le> now - QUESTION_COOLDOWN"
    using that by (fastforce simp: cb_recent_vote_iff)
  show ?thesis
    using a b c d nr ncr unfolding recent_vote_iff cb_recent_vote_iff by blast
qed

text \<open>
  U1 voted on Q1 at 10 and on Q2 at 30 (microseconds). At 50 both handlers refuse; at
  one minute and 30 microseconds both accept.
\<close>

theorem revote_cooldown_witness:
  "v_uuid (single_vote (Some ''U1'') None None ''B'') = Some ''U1''
   \<and> cv_uuid (checkbox_vote (Some ''U1'') None None [''Y'', ''Z'']) = Some ''U1''
   \<and> submit_vote 50 ''S1'' (single_vote (Some ''U1'') None None ''B'') answered_store =
       (Inr (Already_voted already_voted_message), answered_store)
   \<and> submit_checkbox_vote 50 (checkbox_vote (Some ''U1'') None None [''Y'', ''Z'']) answered_store =
       (Inr (Cb_already_voted already_voted_message), answered_store)
   \<and> responses_18 (snd (submit_vote (interval_minutes 1 + 30) ''S1''
         (single_vote (Some ''U1'') None None ''B'') answered_store)) =
       responses_18 answered_store @
       [\<lparr>r_question_id = ''Q1'', r_option_id = 2, r_uuid = Some ''U1'',
         r_option_code = Some ''B'', r_created_at = interval_minutes 1 + 30\<rparr>]
   \<and> checkbox_responses_18 (snd (submit_checkbox_vote (interval_minutes 1 + 30)
         (checkbox_vote (Some ''U1'') None None [''Y'', ''Z'']) answered_store)) =
       checkbox_responses_18 answered_store @
       [\<lparr>c_question_id = ''Q2'', c_option_id = 5, c_uuid = Some ''U1'',
         c_option_code = ''Y'', c_created_at = interval_minutes 1 + 30\<rparr>]"
proof -
  let ?vote = "single_vote (Some ''U1'') None None ''B''"
  let ?cvote = "checkbox_vote (Some ''U1'') None None [''Y'', ''Z'']"
  let ?opt = "\<lparr>o_id = 2, o_question_id = ''Q1'', o_option_code = ''B'', o_option_text = ''No''\<rparr>"
  have h1: "v_uuid ?vote = Some ''U1''" by (simp add: single_vote_def)
  have h2: "cv_uuid ?cvote = Some ''U1''" by (simp add: checkbox_vote_def)
  have q: "v_question_id ?vote = ''Q1''" "cv_question_id ?cvote = ''Q2''"
    "v_option_code ?vote = ''B''"
    by (simp_all add: single_vote_def checkbox_vote_def)
  have rows: "responses_18 answered_store =
          [\<lparr>r_question_id = ''Q1'', r_option_id = 1, r_uuid = Some ''U1'',
            r_option_code = Some ''A'', r_created_at = 10\<rparr>,
           \<lparr>r_question_id = ''Q1'', r_option_id = 2, r_uuid = Some ''U2'',
            r_option_code = Some ''B'', r_created_at = 20\<rparr>]"
    "checkbox_responses_18 answered_store =
          [\<lparr>c_question_id = ''Q2'', c_option_id = 4, c_uuid = Some ''U1'',
            c_option_code = ''X'', c_created_at = 30\<rparr>]"
    by (simp_all add: answered_store_def example_store_def)
  have o: "find_option answered_store ''Q1'' ''B'' = Some ?opt"
    by (simp add: find_option_def first_def answered_store_def example_store_def)
  have cr: "checkbox_rows (interval_minutes 1 + 30) ?cvote answered_store =
       [\<lparr>c_question_id = ''Q2'', c_option_id = 5, c_uuid = Some ''U1'',
         c_option_code = ''Y'', c_created_at = interval_minutes 1 + 30\<rparr>]"
    by (simp add: checkbox_rows_def checkbox_vote_def find_option_def first_def
        answered_store_def example_store_def)
  have early: "submit_vote 50 ''S1'' ?vote answered_store =
       (Inr (Already_voted already_voted_message), answered_store)
     \<and> submit_checkbox_vote 50 ?cvote answered_store =
       (Inr (Cb_already_voted already_voted_message), answered_store)"
    using revote_cooldown [OF h1 h2, of answered_store 50 "''S1''" ?opt]
    by (simp add: q rows QUESTION_COOLDOWN_def interval_minutes_def)
  have late: "responses_18 (snd (submit_vote (interval_minutes 1 + 30) ''S1'' ?vote answered_store)) =
       responses_18 answered_store @
       [\<lparr>r_question_id = ''Q1'', r_option_id = 2, r_uuid = Some ''U1'',
         r_option_code = Some ''B'', r_created_at = interval_minutes 1 + 30\<rparr>]
     \<and> checkbox_responses_18 (snd (submit_checkbox_vote (interval_minutes 1 + 30) ?cvote
         answered_store)) =
       checkbox_responses_18 answered_store @
       [\<lparr>c_question_id = ''Q2'', c_option_id = 5, c_uuid = Some ''U1'',
         c_option_code = ''Y'', c_created_at = interval_minutes 1 + 30\<rparr>]"
    using revote_cooldown [OF h1 h2, of answered_store "interval_minutes 1 + 30" "''S1''" ?opt]
    by (simp add: q rows o cr QUESTION_COOLDOWN_def)
  show ?thesis using h1 h2 early late by blast
qed

subsection \<open>An empty uuid\<close>

text \<open>
  C6. A submission with no user identifier should never be refused by the cooldown and
  never touch the progress table. The handlers take an empty uuid for no uuid
  (\<open>if vote.uuid\<close>), and so does the tally (\<open>uuid IS NULL OR uuid = ''\<close>), but
  \<open>submit_checkbox_vote\<close> writes the empty uuid into its rows and its cooldown query
  compares with it. So after a checkbox submission with an empty uuid, of which some
  code resolves: no user and no progress row is written and the tally counts the new
  row as anonymous, yet every checkbox submission with an empty uuid for the same
  question is answered \<open>already_voted\<close> until the cooldown has passed.
\<close>

theorem empty_uuid_checkbox_vote_hits_cooldown:
  fixes now :: timestamp
  assumes "cv_uuid cvote = Some []" and "cv_uuid cvote' = Some []"
    and "cv_question_id cvote' = cv_question_id cvote"
    and "code \<in> set (cv_option_codes cvote)"
    and "find_option st (cv_question_id cvote) code = Some opt"
    and "\<not> cb_recent_vote now st (Some []) (cv_question_id cvote)"
    and "now' - QUESTION_COOLDOWN < now"
  defines "st' \<equiv> snd (submit_checkbox_vote now cvote st)"
  shows "\<not> truthy_str (cv_uuid cvote)
   \<and> fst (submit_checkbox_vote now cvote st) = Inr Cb_success
   \<and> users_18 st' = users_18 st
   \<and> user_block_progress_18 st' = user_block_progress_18 st
   \<and> checkbox_responses_18 st' = checkbox_responses_18 st @ checkbox_rows now cvote st
   \<and> \<lparr>c_question_id = cv_question_id cvote, c_option_id = o_id opt, c_uuid = Some [],
        c_option_code = code, c_created_at = now\<rparr> \<in> set (checkbox_responses_18 st')
   \<and> 0 < anonymous_count st' (cv_question_id cvote) code
   \<and> submit_checkbox_vote now' cvote' st' =
        (Inr (Cb_already_voted already_voted_message), st')"
proof -
  let ?row = "\<lparr>c_question_id = cv_question_id cvote, c_option_id = o_id opt, c_uuid = Some [],
        c_option_code = code, c_created_at = now\<rparr>"
  have t: "\<not> truthy_str (cv_uuid cvote)" using assms(1) by (simp add: truthy_str_def)
  have h: "handle_user_creation st (Some []) y rf = st" for y rf
    by (simp add: handle_user_creation_def split: option.splits)
  have cb: "check_block now s (Some []) q = s" for s q
    by (simp add: check_block_def split: option.splits)
  have ok: "fst (submit_checkbox_vote now cvote st) = Inr Cb_success"
    using assms(1,6) by (simp add: submit_checkbox_vote_def Let_def)
  have st': "st' = insert_other now cvote (fold (insert_checkbox now cvote) (cv_option_codes cvote) st)"
    using assms(1,6) by (simp add: st'_def submit_checkbox_vote_def Let_def h cb)
  have users: "users_18 st' = users_18 st" and prog: "user_block_progress_18 st' = user_block_progress_18 st"
    by (simp_all add: st')
  have rows: "checkbox_responses_18 st' = checkbox_responses_18 st @ checkbox_rows now cvote st"
    by (simp add: st' fold_insert_checkbox_rows checkbox_rows_def)
  have "?row \<in> set (checkbox_rows now cvote st)"
    using assms(1,4,5) by (force simp: checkbox_rows_def)
  then have mem: "?row \<in> set (checkbox_responses_18 st')" by (simp add: rows)
  have "filter (\<lambda>r. c_question_id r = cv_question_id cvote \<and> \<not> truthy_str (c_uuid r)
           \<and> c_option_code r = code) (checkbox_responses_18 st') \<noteq> []"
    using mem by (force simp: filter_empty_conv truthy_str_def)
  then have anon: "0 < anonymous_count st' (cv_question_id cvote) code"
    by (simp add: anonymous_count_def)
  have "cb_recent_vote now' st' (Some []) (cv_question_id cvote)"
    unfolding cb_recent_vote_iff using mem assms(7) by force
  then have again: "submit_checkbox_vote now' cvote' st' =
        (Inr (Cb_already_voted already_voted_message), st')"
    using assms(2,3) by (simp add: submit_checkbox_vote_def)
  show ?thesis using t ok users prog rows mem anon again by blast
qed

text \<open>
  Someone without uuid votes X on Q2; ten microseconds later someone else without
  uuid votes Y and is refused.
\<close>

theorem empty_uuid_checkbox_vote_hits_cooldown_witness:
  "cv_uuid (checkbox_vote (Some []) None None [''X'']) = Some []
   \<and> find_option example_store ''Q2'' ''X'' =
       Some \<lparr>o_id = 4, o_question_id = ''Q2'', o_option_code = ''X'', o_option_text = ''Music''\<rparr>
   \<and> \<not> cb_recent_vote 0 example_store (Some []) ''Q2''
   \<and> fst (submit_checkbox_vote 0 (checkbox_vote (Some []) None None [''X'']) example_store) =
       Inr Cb_success
   \<and> checkbox_responses_18 empty_uuid_store =
       [\<lparr>c_question_id = ''Q2'', c_option_id = 4, c_uuid = Some [], c_option_code = ''X'',
         c_created_at = 0\<rparr>]
   \<and> anonymous_count empty_uuid_store ''Q2'' ''X'' = 1
   \<and> voters empty_uuid_store ''Q2'' = []
   \<and> user_block_progress_18 empty_uuid_store = []
   \<and> submit_checkbox_vote 10 (checkbox_vote (Some []) None None [''Y'']) empty_uuid_store =
       (Inr (Cb_already_voted already_voted_message), empty_uuid_store)"
proof -
  let ?v = "checkbox_vote (Some []) None None [''X'']"
  let ?w = "checkbox_vote (Some []) None None [''Y'']"
  let ?opt = "\<lparr>o_id = 4, o_question_id = ''Q2'', o_option_code = ''X'', o_option_text = ''Music''\<rparr>"
  have h: "cv_uuid ?v = Some []" "cv_uuid ?w = Some []" "cv_question_id ?w = cv_question_id ?v"
    "''X'' \<in> set (cv_option_codes ?v)"
    by (simp_all add: checkbox_vote_def)
  have o: "find_option example_store (cv_question_id ?v) ''X'' = Some ?opt"
    by (simp add: checkbox_vote_def find_option_def first_def example_store_def)
  have n: "\<not> cb_recent_vote 0 example_store (Some []) (cv_question_id ?v)"
    by (simp add: cb_recent_vote_def example_store_def)
  have t: "(10::int) - QUESTION_COOLDOWN < 0"
    by (simp add: QUESTION_COOLDOWN_def interval_minutes_def)
  have q: "cv_question_id ?v = ''Q2''" by (simp add: checkbox_vote_def)
  have r: "checkbox_responses_18 empty_uuid_store =
       [\<lparr>c_question_id = ''Q2'', c_option_id = 4, c_uuid = Some [], c_option_code = ''X'',
         c_created_at = 0\<rparr>]"
    "user_block_progress_18 empty_uuid_store = []"
    by (simp_all add: empty_uuid_store_def handler_defs example_store_def)
  have a: "anonymous_count empty_uuid_store ''Q2'' ''X'' = 1"
    "voters empty_uuid_store ''Q2'' = []"
    by (simp_all add: anonymous_count_def voters_def r truthy_str_def)
  show ?thesis
    using empty_uuid_checkbox_vote_hits_cooldown [OF h o n t] h(1) o n r a
    by (simp add: q empty_uuid_store_def [symmetric])
qed

text \<open>
  \<open>submit_vote\<close> does not have this behaviour: with an empty uuid it takes the second
  \<open>INSERT\<close>, and the row has no uuid for the cooldown query to match.
\<close>

lemma empty_uuid_single_vote_is_stored_without_uuid:
  assumes "v_uuid vote = Some []" and "v_option_code vote \<noteq> ''OTHER''"
    and "find_option st (v_question_id vote) (v_option_code vote) = Some opt"
    and "\<not> recent_vote now st (Some []) (v_question_id vote)"
  shows "responses_18 (snd (submit_vote now sid vote st)) =
           responses_18 st @
           [\<lparr>r_question_id = v_question_id vote, r_option_id = o_id opt, r_uuid = None,
             r_option_code = None, r_created_at = now\<rparr>]"
proof -
  have h: "handle_user_creation st (Some []) y rf = st" for y rf
    by (simp add: handle_user_creation_def split: option.splits)
  have f: "find_option (s\<lparr>session_responses := m\<rparr>) q c = find_option s q c" for s m q c
    by (simp add: find_option_def)
  show ?thesis
    using assms
    by (simp add: submit_vote_def submit_vote_try_def Let_def h f insert_response_def
        truthy_str_def)
qed

subsection \<open>Users and referrers\<close>

text \<open>
  C9. A submission that carries a user id, a birth year and a referrer id, for a user
  that has no row yet: the user row is created with \<open>referred_by\<close> set to the referrer
  when the referrer has a row, and without the link otherwise. The referrer makes no
  difference to the outcome: \<open>submit_vote\<close> succeeds whenever the cooldown does not
  block it and the code is \<open>"OTHER"\<close> or resolves, and \<open>submit_checkbox_vote\<close> whenever
  the cooldown does not block it.
\<close>

theorem unknown_referrer_is_no_error:
  assumes "u \<noteq> []" and "y \<noteq> 0" and "ref \<noteq> []" and "\<not> user_exists st u"
    and "v_uuid vote = Some u" and "v_year_of_birth vote = Some y"
    and "v_referred_by vote = Some ref"
    and "cv_uuid cvote = Some u" and "cv_year_of_birth cvote = Some y"
    and "cv_referred_by cvote = Some ref"
  defines "new_user \<equiv> \<lparr>u_uuid = u, u_year_of_birth = y,
                         u_referred_by = (if user_exists st ref then Some ref else None)\<rparr>"
  shows
    "users_18 (handle_user_creation st (Some u) (Some y) (Some ref)) = users_18 st @ [new_user]
   \<and> (\<not> recent_vote now st (Some u) (v_question_id vote)
        \<and> (v_option_code vote = ''OTHER''
            \<or> find_option st (v_question_id vote) (v_option_code vote) \<noteq> None) \<longrightarrow>
        (\<exists>res. fst (submit_vote now sid vote st) = Inr res)
        \<and> users_18 (snd (submit_vote now sid vote st)) = users_18 st @ [new_user])
   \<and> (\<not> cb_recent_vote now st (Some u) (cv_question_id cvote) \<longrightarrow>
        fst (submit_checkbox_vote now cvote st) = Inr Cb_success
        \<and> users_18 (snd (submit_checkbox_vote now cvote st)) = users_18 st @ [new_user])"
proof -
  have h: "users_18 (handle_user_creation st (Some u) (Some y) (Some ref)) =
             users_18 st @ [new_user]"
    using assms(1-4) by (simp add: handle_user_creation_def truthy_str_def new_user_def)
  have f: "find_option (handle_user_creation st uu yy rf\<lparr>session_responses := m\<rparr>) q c =
           find_option st q c" for uu yy rf m q c
    by (simp add: find_option_def)
  have v: "(\<exists>res. fst (submit_vote now sid vote st) = Inr res)
        \<and> users_18 (snd (submit_vote now sid vote st)) = users_18 st @ [new_user]"
    if "\<not> recent_vote now st (Some u) (v_question_id vote)"
      "v_option_code vote = ''OTHER''
         \<or> find_option st (v_question_id vote) (v_option_code vote) \<noteq> None"
    using that assms(5-7) h
    by (auto simp: submit_vote_def submit_vote_try_def Let_def f)
  have c: "fst (submit_checkbox_vote now cvote st) = Inr Cb_success
        \<and> users_18 (snd (submit_checkbox_vote now cvote st)) = users_18 st @ [new_user]"
    if "\<not> cb_recent_vote now st (Some u) (cv_question_id cvote)"
    using that assms(8-10) h by (simp add: submit_checkbox_vote_def Let_def)
  show ?thesis using h v c by blast
qed

text \<open>U1 names the existing user R1, and then the unknown R9, as referrer.\<close>

theorem unknown_referrer_witness:
  "\<not> user_exists referrer_store ''U1'' \<and> user_exists referrer_store ''R1''
   \<and> \<not> user_exists referrer_store ''R9''
   \<and> fst (submit_vote 0 ''S1'' (single_vote (Some ''U1'') (Some 2008) (Some ''R1'') ''A'')
            referrer_store) = Inr (Success ''S1'' [(''Q1'', ''A'')])
   \<and> users_18 (snd (submit_vote 0 ''S1'' (single_vote (Some ''U1'') (Some 2008) (Some ''R1'') ''A'')
         referrer_store)) =
       users_18 referrer_store @
       [\<lparr>u_uuid = ''U1'', u_year_of_birth = 2008, u_referred_by = Some ''R1''\<rparr>]
   \<and> fst (submit_vote 0 ''S1'' (single_vote (Some ''U1'') (Some 2008) (Some ''R9'') ''A'')
            referrer_store) = Inr (Success ''S1'' [(''Q1'', ''A'')])
   \<and> users_18 (snd (submit_vote 0 ''S1'' (single_vote (Some ''U1'') (Some 2008) (Some ''R9'') ''A'')
         referrer_store)) =
       users_18 referrer_store @
       [\<lparr>u_uuid = ''U1'', u_year_of_birth = 2008, u_referred_by = None\<rparr>]
   \<and> fst (submit_checkbox_vote 0 (checkbox_vote (Some ''U1'') (Some 2008) (Some ''R9'') [''X''])
            referrer_store) = Inr Cb_success
   \<and> users_18 (snd (submit_checkbox_vote 0
         (checkbox_vote (Some ''U1'') (Some 2008) (Some ''R9'') [''X'']) referrer_store)) =
       users_18 referrer_store @
       [\<lparr>u_uuid = ''U1'', u_year_of_birth = 2008, u_referred_by = None\<rparr>]"
proof -
  let ?v1 = "single_vote (Some ''U1'') (Some 2008) (Some ''R1'') ''A''"
  let ?v9 = "single_vote (Some ''U1'') (Some 2008) (Some ''R9'') ''A''"
  let ?c1 = "checkbox_vote (Some ''U1'') (Some 2008) (Some ''R1'') [''X'']"
  let ?c9 = "checkbox_vote (Some ''U1'') (Some 2008) (Some ''R9'') [''X'']"
  have n: "''U1'' \<noteq> []" "(2008::int) \<noteq> 0" "''R1'' \<noteq> []" "''R9'' \<noteq> []" by simp_all
  have e: "\<not> user_exists referrer_store ''U1''" "user_exists referrer_store ''R1''"
    "\<not> user_exists referrer_store ''R9''"
    by (simp_all add: user_exists_def first_def referrer_store_def example_store_def)
  have v1: "v_uuid ?v1 = Some ''U1''" "v_year_of_birth ?v1 = Some 2008"
    "v_referred_by ?v1 = Some ''R1''"
    and v9: "v_uuid ?v9 = Some ''U1''" "v_year_of_birth ?v9 = Some 2008"
    "v_referred_by ?v9 = Some ''R9''"
    by (simp_all add: single_vote_def)
  have c1: "cv_uuid ?c1 = Some ''U1''" "cv_year_of_birth ?c1 = Some 2008"
    "cv_referred_by ?c1 = Some ''R1''"
    and c9: "cv_uuid ?c9 = Some ''U1''" "cv_year_of_birth ?c9 = Some 2008"
    "cv_referred_by ?c9 = Some ''R9''"
    by (simp_all add: checkbox_vote_def)
  have pre: "\<not> recent_vote 0 referrer_store (Some ''U1'') (v_question_id ?v1)"
    "\<not> recent_vote 0 referrer_store (Some ''U1'') (v_question_id ?v9)"
    "\<not> cb_recent_vote 0 referrer_store (Some ''U1'') (cv_question_id ?c9)"
    "find_option referrer_store (v_question_id ?v1) (v_option_code ?v1) \<noteq> None"
    "find_option referrer_store (v_question_id ?v9) (v_option_code ?v9) \<noteq> None"
    by (simp_all add: recent_vote_def cb_recent_vote_def find_option_def first_def single_vote_def
        checkbox_vote_def referrer_store_def example_store_def)
  have r: "fst (submit_vote 0 ''S1'' ?v1 referrer_store) = Inr (Success ''S1'' [(''Q1'', ''A'')])"
    "fst (submit_vote 0 ''S1'' ?v9 referrer_store) = Inr (Success ''S1'' [(''Q1'', ''A'')])"
    by (simp_all add: handler_defs referrer_store_def example_store_def)
  show ?thesis
    using unknown_referrer_is_no_error [OF n(1,2,3) e(1) v1 c1, of 0 "''S1''"]
      unknown_referrer_is_no_error [OF n(1,2,4) e(1) v9 c9, of 0 "''S1''"]
      e pre r
    by simp
qed

lemma all_answered_users:
  "all_block_questions_answered (st\<lparr>users_18 := us\<rparr>) u c b = all_block_questions_answered st u c b"
  by (simp add: all_block_questions_answered_def answered_def qid_types_def resp_result_def
      cong: filter_cong)

lemma mark_block_completed_users:
  "mark_block_completed now (st\<lparr>users_18 := us\<rparr>) u c b =
     (mark_block_completed now st u c b)\<lparr>users_18 := us\<rparr>"
  by (simp add: mark_block_completed_def)

lemma check_block_users:
  "check_block now (st\<lparr>users_18 := us\<rparr>) u q = (check_block now st u q)\<lparr>users_18 := us\<rparr>"
  by (simp add: check_block_def all_answered_users mark_block_completed_users
      split: option.splits)

lemma unique_question_row:
  assumes "unique_question_ids st" and "q0 \<in> set (questions_18 st)"
    and "q \<in> set (questions_18 st)" and "q_question_id q = q_question_id q0"
  shows "q = q0"
  using assms unfolding unique_question_ids_def by (meson distinct_map inj_onD)

lemma first_question_row:
  assumes "unique_question_ids st" and "q0 \<in> set (questions_18 st)"
  shows "first (filter (\<lambda>q. q_question_id q = q_question_id q0) (questions_18 st)) = Some q0"
proof -
  let ?xs = "filter (\<lambda>q. q_question_id q = q_question_id q0) (questions_18 st)"
  have "?xs \<noteq> []" using assms(2) by (auto simp: filter_empty_conv)
  then obtain q rest where qr: "?xs = q # rest" by (cases ?xs) auto
  then have "q \<in> set ?xs" by simp
  then have "q = q0" using unique_question_row [OF assms] by simp
  with qr show ?thesis by (simp add: first_def)
qed

lemma every_other_question:
  "(\<forall>qt\<in>set (qid_types st c b). fst qt \<noteq> qid \<longrightarrow> resp_result st u qt) \<longleftrightarrow>
   (\<forall>q\<in>set (questions_18 st).
      q_category_id q = c \<and> q_block q = Some b \<and> q_question_id q \<noteq> qid \<longrightarrow>
      (if q_check_box q
       then \<exists>r\<in>set (checkbox_responses_18 st).
              c_uuid r = Some u \<and> c_question_id r = q_question_id q
       else \<exists>r\<in>set (responses_18 st).
              r_uuid r = Some u \<and> r_question_id r = q_question_id q))"
  by (auto simp: qid_types_def resp_result_def list_ex_iff)

lemma resp_result_after_row:
  assumes "responses_18 st' = responses_18 st @ [row]"
    and "checkbox_responses_18 st' = checkbox_responses_18 st"
    and "r_uuid row = Some u" and "r_question_id row = qid"
  shows "resp_result st' u (qid, False)"
    and "fst qt \<noteq> qid \<Longrightarrow> resp_result st' u qt = resp_result st u qt"
  using assms by (auto simp: resp_result_def list_ex_iff)

lemma block_after_row:
  assumes uq: "unique_question_ids st"
    and q0: "q0 \<in> set (questions_18 st)" "q_question_id q0 = qid" "q_category_id q0 = c"
      "q_block q0 = Some b" "\<not> q_check_box q0"
    and st': "responses_18 st' = responses_18 st @ [row]"
      "checkbox_responses_18 st' = checkbox_responses_18 st"
      "questions_18 st' = questions_18 st"
    and row: "r_uuid row = Some u" "r_question_id row = qid"
  shows "all_block_questions_answered st' u c b \<longleftrightarrow>
           (\<forall>qt\<in>set (qid_types st c b). fst qt \<noteq> qid \<longrightarrow> resp_result st u qt)"
proof -
  have u': "unique_question_ids st'" using uq by (simp add: unique_question_ids_def st'(3))
  have q': "qid_types st' c b = qid_types st c b" by (simp add: qid_types_def st'(3))
  have ne: "qid_types st c b \<noteq> []"
    using q0 by (auto simp: qid_types_def filter_empty_conv)
  have own: "qt = (qid, False)" if "qt \<in> set (qid_types st c b)" "fst qt = qid" for qt
  proof -
    from that obtain q where q: "q \<in> set (questions_18 st)" "qt = (q_question_id q, q_check_box q)"
      by (auto simp: qid_types_def)
    with that(2) q0(2) have "q_question_id q = q_question_id q0" by simp
    then have "q = q0" using unique_question_row [OF uq q0(1) q(1)] by simp
    with q(2) q0(2,5) show ?thesis by simp
  qed
  have "resp_result st' u qt \<longleftrightarrow> (fst qt \<noteq> qid \<longrightarrow> resp_result st u qt)"
    if "qt \<in> set (qid_types st c b)" for qt
  proof (cases "fst qt = qid")
    case True
    with own [OF that] resp_result_after_row(1) [OF st'(1,2) row] show ?thesis by simp
  next
    case False
    with resp_result_after_row(2) [OF st'(1,2) row] show ?thesis by simp
  qed
  then show ?thesis
    unfolding all_answered_alt [OF u'] q' using ne by blast
qed

lemma block_before_row:
  assumes uq: "unique_question_ids st"
    and q0: "q0 \<in> set (questions_18 st)" "q_question_id q0 = qid" "q_category_id q0 = c"
      "q_block q0 = Some b" "\<not> q_check_box q0"
    and none: "\<forall>r\<in>set (responses_18 st). r_uuid r = Some u \<longrightarrow> r_question_id r \<noteq> qid"
  shows "\<not> all_block_questions_answered st u c b"
proof
  assume "all_block_questions_answered st u c b"
  then have "\<forall>qt\<in>set (qid_types st c b). resp_result st u qt"
    by (simp add: all_answered_alt [OF uq])
  moreover have "(qid, False) \<in> set (qid_types st c b)"
    using q0 by (force simp: qid_types_def)
  ultimately have "resp_result st u (qid, False)" by blast
  with none show False by (auto simp: resp_result_def list_ex_iff)
qed

lemma check_block_progress:
  assumes uq: "unique_question_ids st"
    and q0: "q0 \<in> set (questions_18 st)" "q_question_id q0 = qid" "q_category_id q0 = c"
      "q_block q0 = Some b"
    and "u \<noteq> []"
  shows "user_block_progress_18 (check_block now st (Some u) qid) =
           (if all_block_questions_answered st u c b
            then user_block_progress_18 (mark_block_completed now st u c b)
            else user_block_progress_18 st)"
  using first_question_row [OF uq q0(1)] q0 assms(6)
  by (simp add: check_block_def)

lemma all_answered_frame:
  assumes "questions_18 s = questions_18 t" and "responses_18 s = responses_18 t"
    and "checkbox_responses_18 s = checkbox_responses_18 t"
  shows "all_block_questions_answered s u c b = all_block_questions_answered t u c b"
proof -
  have "qid_types s c b = qid_types t c b" by (simp add: qid_types_def assms(1))
  moreover have "resp_result s u = resp_result t u"
    by (rule ext) (simp add: resp_result_def assms(2,3))
  ultimately show ?thesis by (simp add: all_block_questions_answered_def answered_def)
qed

text \<open>
  C10. A single-select submission with a user id and no birth year (code resolves and
  is not \<open>"OTHER"\<close>, no cooldown in force) creates no user row and appends the response
  row with that user id. This row blocks the same (user id, question) for the length of
  the cooldown. It counts in the block check: for a single-select question of a block,
  the block is complete after the vote exactly when the user has a row for every other
  question of the block, whereas before the vote, with no earlier row of the user for
  the question, the block is not complete; and the progress row of the block is written
  exactly when the block is complete after the vote. The users table plays no part: the
  run on a store with any other users table gives the same answer and the same state.
\<close>

theorem vote_without_birth_year:
  fixes sid :: string
  assumes "v_uuid vote = Some u" and "u \<noteq> []" and "v_year_of_birth vote = None"
    and "v_question_id vote = qid" and "v_option_code vote \<noteq> ''OTHER''"
    and "find_option st qid (v_option_code vote) = Some opt"
    and "\<not> recent_vote now st (Some u) qid"
  defines "st' \<equiv> snd (submit_vote now sid vote st)"
  shows
    "users_18 st' = users_18 st
   \<and> responses_18 st' = responses_18 st @
        [\<lparr>r_question_id = qid, r_option_id = o_id opt, r_uuid = Some u,
          r_option_code = Some (v_option_code vote), r_created_at = now\<rparr>]
   \<and> (now' - QUESTION_COOLDOWN < now \<and> v_uuid vote' = Some u \<and> v_question_id vote' = qid \<longrightarrow>
        submit_vote now' sid' vote' st' = (Inr (Already_voted already_voted_message), st'))
   \<and> (unique_question_ids st
        \<and> (\<exists>q\<in>set (questions_18 st). q_question_id q = qid \<and> q_category_id q = category_id
              \<and> q_block q = Some block \<and> \<not> q_check_box q) \<longrightarrow>
        (all_block_questions_answered st' u category_id block \<longleftrightarrow>
           (\<forall>q\<in>set (questions_18 st).
              q_category_id q = category_id \<and> q_block q = Some block \<and> q_question_id q \<noteq> qid \<longrightarrow>
              (if q_check_box q
               then \<exists>r\<in>set (checkbox_responses_18 st).
                      c_uuid r = Some u \<and> c_question_id r = q_question_id q
               else \<exists>r\<in>set (responses_18 st).
                      r_uuid r = Some u \<and> r_question_id r = q_question_id q)))
        \<and> ((\<forall>r\<in>set (responses_18 st). r_uuid r = Some u \<longrightarrow> r_question_id r \<noteq> qid) \<longrightarrow>
             \<not> all_block_questions_answered st u category_id block)
        \<and> user_block_progress_18 st' =
            (if all_block_questions_answered st' u category_id block
             then user_block_progress_18 (mark_block_completed now st u category_id block)
             else user_block_progress_18 st))
   \<and> submit_vote now sid vote (st\<lparr>users_18 := us\<rparr>) =
        (fst (submit_vote now sid vote st), st'\<lparr>users_18 := us\<rparr>)"
proof -
  let ?row = "\<lparr>r_question_id = qid, r_option_id = o_id opt, r_uuid = Some u,
          r_option_code = Some (v_option_code vote), r_created_at = now\<rparr>"
  have f: "find_option (s\<lparr>session_responses := m\<rparr>) q c = find_option s q c" for s m q c
    by (simp add: find_option_def)
  obtain st3 where st': "st' = check_block now st3 (Some u) qid"
    and st3: "responses_18 st3 = responses_18 st @ [?row]"
      "checkbox_responses_18 st3 = checkbox_responses_18 st"
      "questions_18 st3 = questions_18 st"
      "user_block_progress_18 st3 = user_block_progress_18 st"
      "users_18 st3 = users_18 st"
  proof -
    let ?st2 = "st\<lparr>session_responses :=
       (session_responses st)
       (case v_session_id vote of None \<Rightarrow> sid | Some s \<Rightarrow> if s = [] then sid else s \<mapsto>
        (case session_responses st
                (case v_session_id vote of None \<Rightarrow> sid | Some s \<Rightarrow> if s = [] then sid else s) of
           None \<Rightarrow> [] | Some h \<Rightarrow> h) @ [(qid, v_option_code vote)])\<rparr>"
    have "st' = check_block now (insert_response now ?st2 vote opt) (Some u) qid"
      using assms(1-7)
      by (simp add: st'_def submit_vote_def submit_vote_try_def Let_def f)
    moreover have "responses_18 (insert_response now ?st2 vote opt) = responses_18 st @ [?row]"
      using assms(1,2,4) by (simp add: insert_response_def truthy_str_def)
    ultimately show ?thesis using that by simp
  qed
  have users: "users_18 st' = users_18 st" by (simp add: st' st3)
  have resp: "responses_18 st' = responses_18 st @ [?row]" by (simp add: st' st3)
  have cb: "checkbox_responses_18 st' = checkbox_responses_18 st" by (simp add: st' st3)
  have qs: "questions_18 st' = questions_18 st" by (simp add: st' st3)
  have again: "submit_vote now' sid' vote' st' = (Inr (Already_voted already_voted_message), st')"
    if "now' - QUESTION_COOLDOWN < now" "v_uuid vote' = Some u" "v_question_id vote' = qid"
  proof -
    have "recent_vote now' st' (Some u) qid"
      using that(1) by (simp add: recent_vote_def resp sql_eq_def)
    then show ?thesis using that(2,3) by (simp add: submit_vote_def submit_vote_try_def)
  qed
  have block: "(all_block_questions_answered st' u category_id block \<longleftrightarrow>
           (\<forall>q\<in>set (questions_18 st).
              q_category_id q = category_id \<and> q_block q = Some block \<and> q_question_id q \<noteq> qid \<longrightarrow>
              (if q_check_box q
               then \<exists>r\<in>set (checkbox_responses_18 st).
                      c_uuid r = Some u \<and> c_question_id r = q_question_id q
               else \<exists>r\<in>set (responses_18 st).
                      r_uuid r = Some u \<and> r_question_id r = q_question_id q)))
        \<and> ((\<forall>r\<in>set (responses_18 st). r_uuid r = Some u \<longrightarrow> r_question_id r \<noteq> qid) \<longrightarrow>
             \<not> all_block_questions_answered st u category_id block)
        \<and> user_block_progress_18 st' =
            (if all_block_questions_answered st' u category_id block
             then user_block_progress_18 (mark_block_completed now st u category_id block)
             else user_block_progress_18 st)"
    if uq: "unique_question_ids st"
      and ex: "\<exists>q\<in>set (questions_18 st). q_question_id q = qid \<and> q_category_id q = category_id
              \<and> q_block q = Some block \<and> \<not> q_check_box q"
  proof -
    from ex obtain q0 where q0: "q0 \<in> set (questions_18 st)" "q_question_id q0 = qid"
      "q_category_id q0 = category_id" "q_block q0 = Some block" "\<not> q_check_box q0"
      by blast
    have r: "r_uuid ?row = Some u" "r_question_id ?row = qid" by simp_all
    have after: "all_block_questions_answered st' u category_id block \<longleftrightarrow>
        (\<forall>qt\<in>set (qid_types st category_id block). fst qt \<noteq> qid \<longrightarrow> resp_result st u qt)"
      by (rule block_after_row [OF uq q0 resp cb qs r])
    have before: "\<not> all_block_questions_answered st u category_id block"
      if "\<forall>r\<in>set (responses_18 st). r_uuid r = Some u \<longrightarrow> r_question_id r \<noteq> qid"
      by (rule block_before_row [OF uq q0 that])
    have uq3: "unique_question_ids st3" using uq by (simp add: unique_question_ids_def st3)
    have q3: "q0 \<in> set (questions_18 st3)" using q0(1) by (simp add: st3)
    have a3: "all_block_questions_answered st3 u category_id block =
              all_block_questions_answered st' u category_id block"
      by (rule all_answered_frame) (simp_all add: st')
    have p3: "user_block_progress_18 (mark_block_completed now st3 u category_id block) =
              user_block_progress_18 (mark_block_completed now st u category_id block)"
      by (simp add: mark_block_completed_def st3)
    have prog: "user_block_progress_18 st' =
            (if all_block_questions_answered st' u category_id block
             then user_block_progress_18 (mark_block_completed now st u category_id block)
             else user_block_progress_18 st)"
      using check_block_progress [OF uq3 q3 q0(2,3,4) assms(2), of now]
      by (simp add: st' [symmetric] a3 p3 st3)
    show ?thesis using after before prog unfolding every_other_question by blast
  qed
  have same: "submit_vote now sid vote (st\<lparr>users_18 := us\<rparr>) =
        (fst (submit_vote now sid vote st), st'\<lparr>users_18 := us\<rparr>)"
  proof -
    have r: "\<not> recent_vote now (st\<lparr>users_18 := us\<rparr>) (Some u) qid"
      using assms(7) by (simp add: recent_vote_def)
    have o: "find_option (s\<lparr>users_18 := us\<rparr>) q c = find_option s q c" for s q c
      by (simp add: find_option_def)
    have i: "insert_response now (s\<lparr>users_18 := us\<rparr>) vote opt =
             (insert_response now s vote opt)\<lparr>users_18 := us\<rparr>" for s
      by (simp add: insert_response_def)
    have m: "s\<lparr>users_18 := us, session_responses := m\<rparr> =
             s\<lparr>session_responses := m, users_18 := us\<rparr>" for s :: state and m
      by simp
    show ?thesis
      using assms(1-7) r
      by (simp add: st'_def submit_vote_def submit_vote_try_def Let_def f o m i check_block_users)
  qed
  show ?thesis using users resp again block same by blast
qed

text \<open>
  U1 has no user row. On the store where U1 has voted on the checkbox question Q2, the
  block is incomplete before U1 votes A on Q1 and complete after it, and its progress
  row is written. On the store where U1 has not voted on Q2, the same vote leaves the
  block incomplete and writes no progress row.
\<close>

theorem vote_without_birth_year_witness:
  "v_uuid (single_vote (Some ''U1'') None None ''A'') = Some ''U1''
   \<and> v_year_of_birth (single_vote (Some ''U1'') None None ''A'') = None
   \<and> \<not> user_exists tally_store ''U1''
   \<and> fst (submit_vote 100 ''S1'' (single_vote (Some ''U1'') None None ''A'') tally_store) =
       Inr (Success ''S1'' [(''Q1'', ''A'')])
   \<and> users_18 (snd (submit_vote 100 ''S1'' (single_vote (Some ''U1'') None None ''A'') tally_store))
       = []
   \<and> responses_18 (snd (submit_vote 100 ''S1'' (single_vote (Some ''U1'') None None ''A'')
         tally_store)) =
       [\<lparr>r_question_id = ''Q1'', r_option_id = 1, r_uuid = Some ''U1'',
         r_option_code = Some ''A'', r_created_at = 100\<rparr>]
   \<and> fst (submit_vote 200 ''S2'' (single_vote (Some ''U1'') None None ''B'')
        (snd (submit_vote 100 ''S1'' (single_vote (Some ''U1'') None None ''A'') tally_store))) =
       Inr (Already_voted already_voted_message)
   \<and> \<not> all_block_questions_answered tally_store ''U1'' 1 1
   \<and> all_block_questions_answered
        (snd (submit_vote 100 ''S1'' (single_vote (Some ''U1'') None None ''A'') tally_store))
        ''U1'' 1 1
   \<and> user_block_progress_18
        (snd (submit_vote 100 ''S1'' (single_vote (Some ''U1'') None None ''A'') tally_store)) =
       [\<lparr>p_uuid = ''U1'', p_category_id = 1, p_block = 1, p_completed_at = 100\<rparr>]
   \<and> \<not> all_block_questions_answered
        (snd (submit_vote 100 ''S1'' (single_vote (Some ''U1'') None None ''A'') example_store))
        ''U1'' 1 1
   \<and> user_block_progress_18
        (snd (submit_vote 100 ''S1'' (single_vote (Some ''U1'') None None ''A'') example_store)) = []"
proof -
  let ?vote = "single_vote (Some ''U1'') None None ''A''"
  let ?again = "single_vote (Some ''U1'') None None ''B''"
  let ?opt = "\<lparr>o_id = 1, o_question_id = ''Q1'', o_option_code = ''A'', o_option_text = ''Yes''\<rparr>"
  have h: "v_uuid ?vote = Some ''U1''" "''U1'' \<noteq> []" "v_year_of_birth ?vote = None"
    "v_question_id ?vote = ''Q1''" "v_option_code ?vote \<noteq> ''OTHER''"
    by (simp_all add: single_vote_def)
  have o: "find_option tally_store ''Q1'' (v_option_code ?vote) = Some ?opt"
    "find_option example_store ''Q1'' (v_option_code ?vote) = Some ?opt"
    by (simp_all add: find_option_def first_def single_vote_def tally_store_def example_store_def)
  have nr: "\<not> recent_vote 100 tally_store (Some ''U1'') ''Q1''"
    "\<not> recent_vote 100 example_store (Some ''U1'') ''Q1''"
    by (simp_all add: recent_vote_def tally_store_def example_store_def)
  have a: "v_uuid ?again = Some ''U1''" "v_question_id ?again = ''Q1''"
    by (simp_all add: single_vote_def)
  have u: "unique_question_ids tally_store" "\<not> user_exists tally_store ''U1''"
    "users_18 tally_store = []" "responses_18 tally_store = []"
    "unique_question_ids example_store" "responses_18 example_store = []"
    "user_block_progress_18 tally_store = []" "user_block_progress_18 example_store = []"
    by (simp_all add: unique_question_ids_def user_exists_def first_def tally_store_def
        example_store_def)
  have q: "questions_18 tally_store =
        [\<lparr>q_question_id = ''Q1'', q_category_id = 1, q_block = Some 1, q_check_box = False\<rparr>,
         \<lparr>q_question_id = ''Q2'', q_category_id = 1, q_block = Some 1, q_check_box = True\<rparr>]"
    "questions_18 example_store =
        [\<lparr>q_question_id = ''Q1'', q_category_id = 1, q_block = Some 1, q_check_box = False\<rparr>,
         \<lparr>q_question_id = ''Q2'', q_category_id = 1, q_block = Some 1, q_check_box = True\<rparr>]"
    by (simp_all add: tally_store_def example_store_def)
  have c: "\<exists>r\<in>set (checkbox_responses_18 tally_store). c_uuid r = Some ''U1'' \<and> c_question_id r = ''Q2''"
    "\<not> (\<exists>r\<in>set (checkbox_responses_18 example_store). c_uuid r = Some ''U1'' \<and> c_question_id r = ''Q2'')"
    by (simp_all add: tally_store_def example_store_def)
  have m: "user_block_progress_18 (mark_block_completed 100 tally_store ''U1'' 1 1) =
       [\<lparr>p_uuid = ''U1'', p_category_id = 1, p_block = 1, p_completed_at = 100\<rparr>]"
    by (simp add: mark_block_completed_def u)
  have res: "fst (submit_vote 100 ''S1'' ?vote tally_store) = Inr (Success ''S1'' [(''Q1'', ''A'')])"
    by (simp add: handler_defs tally_store_def example_store_def)
  show ?thesis
    using vote_without_birth_year [OF h o(1) nr(1), where now' = 200 and vote' = ?again
        and category_id = 1 and block = 1 and sid = "''S1''" and sid' = "''S2''" and us = "[]"]
      vote_without_birth_year [OF h o(2) nr(2), where now' = 200 and vote' = ?again
        and category_id = 1 and block = 1 and sid = "''S1''" and sid' = "''S2''" and us = "[]"]
      h(1,3) a u c m res
    by (simp add: q QUESTION_COOLDOWN_def interval_minutes_def single_vote_def)
qed

subsection \<open>The tally: dictionary updates\<close>

lemma add_if_present_apply:
  "add_if_present code w rd c = (if code = c then map_option (\<lambda>v. v + w) (rd c) else rd c)"
  by (simp add: add_if_present_def split: option.splits)

lemma fold_add_optional:
  "fold (\<lambda>x. case k x of None \<Rightarrow> id | Some code \<Rightarrow> add_if_present code (w x)) xs rd c =
     map_option (\<lambda>v. v + sum_list (map w (filter (\<lambda>x. k x = Some c) xs))) (rd c)"
proof (induction xs arbitrary: rd)
  case Nil
  then show ?case by (simp add: option.map_ident)
next
  case (Cons x xs)
  show ?case
  proof (cases "k x")
    case None
    then show ?thesis by (simp add: Cons.IH)
  next
    case (Some code)
    then show ?thesis
      by (simp add: Cons.IH add_if_present_apply option.map_comp comp_def add.assoc)
  qed
qed

lemma fold_add_if_present:
  "fold (\<lambda>x. add_if_present (k x) (w x)) xs rd c =
     map_option (\<lambda>v. v + sum_list (map w (filter (\<lambda>x. k x = c) xs))) (rd c)"
  using fold_add_optional [where k = "\<lambda>x. Some (k x)" and w = w and xs = xs and rd = rd and c = c]
  by simp

lemma fold_upd_apply:
  "fold (\<lambda>x m. m(k x \<mapsto> v x)) xs m c \<noteq> None \<longleftrightarrow> c \<in> k ` set xs \<or> m c \<noteq> None"
  by (induction xs arbitrary: m) auto

lemma initial_results_apply:
  "initial_results codes c = (if c \<in> set codes then Some 0 else None)"
proof -
  have "fold (\<lambda>code m. m(code \<mapsto> 0::rat)) codes m c = (if c \<in> set codes then Some 0 else m c)"
    for m
    by (induction codes arbitrary: m) auto
  then show ?thesis by (simp add: initial_results_def)
qed

lemma option_texts_defined:
  "c \<in> set (option_codes st qid) \<Longrightarrow> option_texts st qid c \<noteq> None"
  unfolding option_texts_def option_codes_def
  by (subst fold_upd_apply) simp

subsection \<open>The tally: grouped counts\<close>

lemma of_nat_sum_list_map:
  "(of_nat (sum_list (map f xs)) :: rat) = sum_list (map (\<lambda>x. of_nat (f x)) xs)"
  by (induction xs) simp_all

lemma filter_eq_distinct:
  "distinct ks \<Longrightarrow> filter (\<lambda>k'. k' = k) ks = (if k \<in> set ks then [k] else [])"
  by (induction ks) auto

lemma grouped_count:
  "sum_list (map snd (filter (\<lambda>p. fst p = k) (map (\<lambda>k'. (k', f k')) (remdups ks)))) =
     (if k \<in> set ks then f k else (0::nat))"
proof -
  have "filter (\<lambda>p. fst p = k) (map (\<lambda>k'. (k', f k')) (remdups ks)) =
        map (\<lambda>k'. (k', f k')) (filter (\<lambda>k'. k' = k) (remdups ks))"
    by (simp add: filter_map comp_def)
  then show ?thesis by (simp add: filter_eq_distinct)
qed

lemma length_filter_not_in:
  "k \<notin> key ` set rows \<Longrightarrow> length (filter (\<lambda>r. key r = k) rows) = 0"
  by (auto simp: filter_empty_conv)

lemma grouped_count_rows:
  "sum_list (map snd (filter (\<lambda>p. fst p = k)
       (map (\<lambda>k'. (k', length (filter (\<lambda>r. key r = k') rows))) (remdups (map key rows))))) =
     length (filter (\<lambda>r. key r = k) rows)"
  using length_filter_not_in [of k key rows]
  by (simp only: grouped_count) auto

lemma indicator_sum_list:
  "distinct cs \<Longrightarrow>
   sum_list (map (\<lambda>c. if c = c0 then n else 0) cs) = (if c0 \<in> set cs then n else (0::nat))"
  by (induction cs) auto

lemma count_partition:
  assumes "distinct cs" and "\<forall>r\<in>set rows. \<exists>c\<in>set cs. key r = Some c"
  shows "sum_list (map (\<lambda>c. length (filter (\<lambda>r. key r = Some c) rows)) cs) = length rows"
  using assms(2)
proof (induction rows)
  case Nil
  then show ?case by simp
next
  case (Cons r rows)
  then obtain c0 where c0: "c0 \<in> set cs" "key r = Some c0" by auto
  have "sum_list (map (\<lambda>c. length (filter (\<lambda>r. key r = Some c) (r # rows))) cs) =
        sum_list (map (\<lambda>c. (if c = c0 then 1 else 0)
                            + length (filter (\<lambda>r. key r = Some c) rows)) cs)"
    using c0(2) by (intro arg_cong [where f = sum_list] map_cong) auto
  also have "\<dots> = sum_list (map (\<lambda>c. if c = c0 then 1 else 0) cs)
                  + sum_list (map (\<lambda>c. length (filter (\<lambda>r. key r = Some c) rows)) cs)"
    by (simp only: sum_list_addf)
  also have "\<dots> = 1 + length rows"
    using Cons c0(1) indicator_sum_list [OF assms(1), of c0 1] by simp
  finally show ?case by simp
qed

subsection \<open>The tally: rounding and formatting\<close>

lemma round_half_even_of_int [simp]: "round_half_even (of_int n) = n"
  by (simp add: round_half_even_def)

lemma round2_of_nat [simp]: "round2 (of_nat n) = of_nat n"
proof -
  have "(of_nat n :: rat) * 100 = of_int (int n * 100)" by simp
  then have "round_half_even (of_nat n * 100) = int n * 100"
    by (simp only: round_half_even_of_int)
  then show ?thesis by (simp add: round2_def)
qed

lemma results_dict_single:
  assumes "\<not> is_checkbox st qid"
  shows "results_dict st qid c =
     (if c \<in> set (option_codes st qid) then Some (of_nat (response_count st qid c)) else None)"
proof -
  let ?rows = "filter (\<lambda>r. r_question_id r = qid) (responses_18 st)"
  have "sum_list (map (\<lambda>row. of_nat (snd row) :: rat)
          (filter (\<lambda>row. fst row = Some c) (resp_counts st qid))) =
        of_nat (sum_list (map snd (filter (\<lambda>row. fst row = Some c) (resp_counts st qid))))"
    by (simp add: of_nat_sum_list_map)
  also have "\<dots> = of_nat (response_count st qid c)"
    using grouped_count_rows [of "Some c" r_option_code ?rows]
    by (simp add: resp_counts_def response_count_def Let_def)
  finally show ?thesis
    using assms
    by (simp add: results_dict_def Let_def fold_add_optional initial_results_apply)
qed

lemma split_comma_nonempty [simp]: "split_comma s \<noteq> []"
  by (induction s) (auto split: list.splits)

lemma sum_list_const_filter:
  "sum_list (map (\<lambda>x. w) (filter (\<lambda>x. x = c) xs)) = of_nat (count_list xs c) * (w :: rat)"
  by (induction xs) (simp_all add: algebra_simps)

lemma add_user_votes_apply:
  "add_user_votes user rd c = map_option (\<lambda>v. v + group_weight user c) (rd c)"
proof (cases "\<not> truthy_str (fst user) \<or> snd user = []")
  case True
  then show ?thesis by (auto simp: add_user_votes_def group_weight_def option.map_ident)
next
  case False
  then show ?thesis
    using fold_add_if_present [where k = "\<lambda>x. x"
        and w = "\<lambda>x. 1 / of_nat (length (split_comma (snd user)))"
        and xs = "split_comma (snd user)" and rd = rd and c = c]
    by (simp add: add_user_votes_def group_weight_def Let_def sum_list_const_filter)
qed

lemma fold_add_user_votes:
  "fold add_user_votes users rd c =
     map_option (\<lambda>v. v + sum_list (map (\<lambda>user. group_weight user c) users)) (rd c)"
proof (induction users arbitrary: rd)
  case Nil
  then show ?case by (simp add: option.map_ident)
next
  case (Cons user users)
  have "fold add_user_votes (user # users) rd c =
        fold add_user_votes users (add_user_votes user rd) c"
    by simp
  also have "\<dots> = map_option (\<lambda>v. v + sum_list (map (\<lambda>user. group_weight user c) users))
                     (add_user_votes user rd c)"
    by (rule Cons.IH)
  also have "\<dots> = map_option
      (\<lambda>v. v + sum_list (map (\<lambda>user. group_weight user c) (user # users))) (rd c)"
    by (simp add: add_user_votes_apply option.map_comp comp_def add.assoc)
  finally show ?case .
qed

lemma format_results_ok:
  assumes "\<forall>c\<in>set codes. rd c \<noteq> None \<and> texts c \<noteq> None"
  shows "\<exists>entries. format_results is_cb rd texts n_other codes = Inr entries
           \<and> map e_code entries = codes
           \<and> map e_count entries = map (entry_count is_cb rd n_other) codes"
  using assms
proof (induction codes)
  case Nil
  then show ?case by simp
next
  case (Cons code codes)
  then obtain entries where e: "format_results is_cb rd texts n_other codes = Inr entries"
      "map e_code entries = codes"
      "map e_count entries = map (entry_count is_cb rd n_other) codes"
    by auto
  from Cons.prems obtain c t where ct: "rd code = Some c" "texts code = Some t" by auto
  have "\<exists>entry. format_entry is_cb rd texts n_other code = Inr entry \<and> e_code entry = code
          \<and> e_count entry = entry_count is_cb rd n_other code"
    using ct by (auto simp: format_entry_def entry_count_def)
  with e show ?case by auto
qed

lemma results_dict_defined:
  assumes "c \<in> set (option_codes st qid)"
  shows "results_dict st qid c \<noteq> None"
proof (cases "is_checkbox st qid")
  case True
  with assms show ?thesis
    by (simp add: results_dict_def Let_def fold_add_if_present fold_add_user_votes
        initial_results_apply)
next
  case False
  with assms show ?thesis by (simp add: results_dict_single)
qed

lemma get_question_results_ok:
  "\<exists>res. get_question_results st qid = Inr res
     \<and> map e_code (results res) = option_codes st qid
     \<and> map e_count (results res) =
         map (entry_count (is_checkbox st qid) (results_dict st qid)
                (length (custom_responses st qid))) (option_codes st qid)
     \<and> custom_responses_out res = custom_responses st qid"
proof -
  have "\<forall>c\<in>set (option_codes st qid). results_dict st qid c \<noteq> None \<and> option_texts st qid c \<noteq> None"
    by (simp add: results_dict_defined option_texts_defined)
  from format_results_ok [OF this]
  obtain entries where
    "format_results (is_checkbox st qid) (results_dict st qid) (option_texts st qid)
       (length (custom_responses st qid)) (option_codes st qid) = Inr entries"
    "map e_code entries = option_codes st qid"
    "map e_count entries = map (entry_count (is_checkbox st qid) (results_dict st qid)
                (length (custom_responses st qid))) (option_codes st qid)"
    by blast
  then show ?thesis by (simp add: get_question_results_def Let_def)
qed

lemma length_custom_responses:
  "length (custom_responses st qid) =
     length (filter (\<lambda>x. x_question_id x = qid) (other_responses_18 st))"
  by (simp add: custom_responses_def)

subsection \<open>The tally of a single-select question\<close>

text \<open>
  C2 as stated fails. U1 votes A on Q1; U2 selects OTHER and sends the text. Q1 now has
  one response row, and the counts of its options sum to 2: the count of the OTHER
  option is the number of free-text rows.
\<close>

theorem single_select_sum_counterexample:
  "fst (submit_vote 0 ''S1'' (single_vote (Some ''U1'') None None ''A'') example_store) =
     Inr (Success ''S1'' [(''Q1'', ''A'')])
   \<and> fst (submit_vote 10 ''S2'' (single_vote (Some ''U2'') None None ''OTHER'')
       (snd (submit_vote 0 ''S1'' (single_vote (Some ''U1'') None None ''A'') example_store))) =
     Inr (Other_needed ''S2'' [(''Q1'', ''OTHER'')])
   \<and> \<not> is_checkbox other_store ''Q1''
   \<and> length (filter (\<lambda>r. r_question_id r = ''Q1'') (responses_18 other_store)) = 1
   \<and> get_question_results other_store ''Q1'' =
       Inr \<lparr>results =
              [\<lparr>e_text = ''Yes'', e_code = ''A'', e_count = 1\<rparr>,
               \<lparr>e_text = ''No'', e_code = ''B'', e_count = 0\<rparr>,
               \<lparr>e_text = ''Other'', e_code = ''OTHER'', e_count = 1\<rparr>],
            custom_responses_out = [''Both'']\<rparr>
   \<and> sum_list (map e_count
         [\<lparr>e_text = ''Yes'', e_code = ''A'', e_count = 1\<rparr>,
          \<lparr>e_text = ''No'', e_code = ''B'', e_count = 0\<rparr>,
          \<lparr>e_text = ''Other'', e_code = ''OTHER'', e_count = 1\<rparr>]) = 2
   \<and> (\<exists>res. get_question_results other_store ''Q1'' = Inr res
         \<and> sum_list (map e_count (results res)) \<noteq>
             of_nat (length (filter (\<lambda>r. r_question_id r = ''Q1'') (responses_18 other_store))))"
proof -
  have a: "fst (submit_vote 0 ''S1'' (single_vote (Some ''U1'') None None ''A'') example_store) =
     Inr (Success ''S1'' [(''Q1'', ''A'')])"
    by (simp add: handler_defs example_store_def)
  have b: "fst (submit_vote 10 ''S2'' (single_vote (Some ''U2'') None None ''OTHER'')
       (snd (submit_vote 0 ''S1'' (single_vote (Some ''U1'') None None ''A'') example_store))) =
     Inr (Other_needed ''S2'' [(''Q1'', ''OTHER'')])"
    by (simp add: handler_defs example_store_def)
  have c: "\<not> is_checkbox other_store ''Q1''"
    by (simp add: is_checkbox_def other_store_tables first_def example_store_def)
  have r: "round2 0 = 0" "round2 1 = 1"
    using round2_of_nat [of 0] round2_of_nat [of 1] by simp_all
  have g: "get_question_results other_store ''Q1'' =
       Inr \<lparr>results =
              [\<lparr>e_text = ''Yes'', e_code = ''A'', e_count = 1\<rparr>,
               \<lparr>e_text = ''No'', e_code = ''B'', e_count = 0\<rparr>,
               \<lparr>e_text = ''Other'', e_code = ''OTHER'', e_count = 1\<rparr>],
            custom_responses_out = [''Both'']\<rparr>"
    by (simp add: tally_defs other_store_tables example_store_def first_def Let_def r)
  show ?thesis using a b c g by (simp add: other_store_tables)
qed

text \<open>
  C2, amended. For a single-select question with pairwise distinct option codes, all of
  whose response rows store the code of one of its options other than \<open>"OTHER"\<close> (as the
  rows written for identified voters do): \<open>get_question_results\<close> returns one entry for
  each option, and the counts sum to the number of response rows of the question plus,
  when the question has an OTHER option, the number of its free-text rows, which is the
  count of that option.
\<close>

theorem single_select_counts_sum:
  assumes "\<not> is_checkbox st qid" and "distinct (option_codes st qid)"
    and "\<forall>r\<in>set (responses_18 st). r_question_id r = qid \<longrightarrow>
           (\<exists>c\<in>set (option_codes st qid). r_option_code r = Some c \<and> c \<noteq> ''OTHER'')"
  shows "\<exists>res. get_question_results st qid = Inr res
     \<and> map e_code (results res) = option_codes st qid
     \<and> sum_list (map e_count (results res)) =
         of_nat (length (filter (\<lambda>r. r_question_id r = qid) (responses_18 st)))
       + (if ''OTHER'' \<in> set (option_codes st qid)
          then of_nat (length (filter (\<lambda>x. x_question_id x = qid) (other_responses_18 st)))
          else 0)"
proof -
  let ?codes = "option_codes st qid"
  let ?rows = "filter (\<lambda>r. r_question_id r = qid) (responses_18 st)"
  let ?n = "length (filter (\<lambda>x. x_question_id x = qid) (other_responses_18 st))"
  obtain res where res: "get_question_results st qid = Inr res"
      "map e_code (results res) = ?codes"
      "map e_count (results res) =
         map (entry_count (is_checkbox st qid) (results_dict st qid)
                (length (custom_responses st qid))) ?codes"
    using get_question_results_ok [of st qid] by blast
  have no_other: "response_count st qid ''OTHER'' = 0"
    using assms(3) by (auto simp: response_count_def filter_empty_conv)
  have entry: "entry_count (is_checkbox st qid) (results_dict st qid)
                 (length (custom_responses st qid)) c =
               of_nat (response_count st qid c + (if c = ''OTHER'' then ?n else 0))"
    if "c \<in> set ?codes" for c
    using that assms(1) no_other
    by (simp add: entry_count_def results_dict_single length_custom_responses)
  have part: "sum_list (map (response_count st qid) ?codes) = length ?rows"
    unfolding response_count_def
    by (rule count_partition [OF assms(2)]) (use assms(3) in auto)
  have "sum_list (map e_count (results res)) =
        sum_list (map (\<lambda>c. of_nat (response_count st qid c
                      + (if c = ''OTHER'' then ?n else 0))) ?codes)"
    unfolding res(3) using entry by (intro arg_cong [where f = sum_list] map_cong) auto
  also have "\<dots> = of_nat (sum_list (map (\<lambda>c. response_count st qid c
                      + (if c = ''OTHER'' then ?n else 0)) ?codes))"
    by (simp only: of_nat_sum_list_map)
  also have "\<dots> = of_nat (length ?rows + (if ''OTHER'' \<in> set ?codes then ?n else 0))"
    using part indicator_sum_list [OF assms(2), of "''OTHER''" ?n]
    by (simp add: sum_list_addf)
  finally show ?thesis using res(1,2) by auto
qed

text \<open>Q1 with the votes of U1 and U2 and no free text.\<close>

theorem single_select_counts_sum_witness:
  "\<not> is_checkbox answered_store ''Q1'' \<and> distinct (option_codes answered_store ''Q1'')
   \<and> length (filter (\<lambda>r. r_question_id r = ''Q1'') (responses_18 answered_store)) = 2
   \<and> (\<exists>res. get_question_results answered_store ''Q1'' = Inr res
         \<and> map e_code (results res) = [''A'', ''B'', ''OTHER'']
         \<and> sum_list (map e_count (results res)) = 2)"
proof -
  have c: "\<not> is_checkbox answered_store ''Q1''"
    by (simp add: is_checkbox_def first_def answered_store_def example_store_def)
  have d: "distinct (option_codes answered_store ''Q1'')"
    by (simp add: answered_store_codes)
  have r: "\<forall>r\<in>set (responses_18 answered_store). r_question_id r = ''Q1'' \<longrightarrow>
           (\<exists>c\<in>set (option_codes answered_store ''Q1''). r_option_code r = Some c \<and> c \<noteq> ''OTHER'')"
    by (simp add: answered_store_codes) (simp add: answered_store_def example_store_def)
  have n: "length (filter (\<lambda>r. r_question_id r = ''Q1'') (responses_18 answered_store)) = 2"
    "length (filter (\<lambda>x. x_question_id x = ''Q1'') (other_responses_18 answered_store)) = 0"
    by (simp_all add: answered_store_def example_store_def)
  show ?thesis
    using single_select_counts_sum [OF c d r] c d n by (simp add: answered_store_codes)
qed

text \<open>
  A vote without uuid is stored without its option code (the second \<open>INSERT\<close> of
  \<open>submit_vote\<close> names only \<open>question_id\<close> and \<open>option_id\<close>), and the tally, which groups
  the rows by \<open>option_code\<close>, counts it for no option.
\<close>

lemma anonymous_single_vote_not_counted:
  "fst (submit_vote 0 ''S1'' (single_vote None None None ''A'') example_store) =
     Inr (Success ''S1'' [(''Q1'', ''A'')])
   \<and> length (filter (\<lambda>r. r_question_id r = ''Q1'') (responses_18 anonymous_store)) = 1
   \<and> results_dict anonymous_store ''Q1'' ''A'' = Some 0
   \<and> results_dict anonymous_store ''Q1'' ''B'' = Some 0"
proof -
  have a: "fst (submit_vote 0 ''S1'' (single_vote None None None ''A'') example_store) =
     Inr (Success ''S1'' [(''Q1'', ''A'')])"
    by (simp add: handler_defs example_store_def)
  have "results_dict anonymous_store ''Q1'' ''A'' = Some 0"
    "results_dict anonymous_store ''Q1'' ''B'' = Some 0"
    by (simp_all add: tally_defs anonymous_store_tables example_store_def first_def Let_def)
  with a show ?thesis by (simp add: anonymous_store_tables)
qed

subsection \<open>The tally of a checkbox question\<close>

lemma split_comma_plain: "CHR '','' \<notin> set w \<Longrightarrow> split_comma w = [w]"
  by (induction w) auto

lemma split_comma_append:
  "CHR '','' \<notin> set w \<Longrightarrow> split_comma (w @ CHR '','' # s) = w # split_comma s"
  by (induction w) auto

lemma split_string_agg:
  "codes \<noteq> [] \<Longrightarrow> \<forall>c\<in>set codes. CHR '','' \<notin> set c \<Longrightarrow> split_comma (string_agg codes) = codes"
proof (induction codes rule: string_agg.induct)
  case 1
  then show ?case by simp
next
  case (2 code)
  then show ?case by (simp add: split_comma_plain)
next
  case (3 code c rest)
  then show ?case by (simp add: split_comma_append)
qed

lemma string_agg_nonempty:
  "codes \<noteq> [] \<Longrightarrow> \<forall>c\<in>set codes. c \<noteq> [] \<Longrightarrow> string_agg codes \<noteq> []"
  by (induction codes rule: string_agg.induct) auto

lemma user_votes_eq:
  "user_votes st qid =
     map (\<lambda>u. (u, string_agg (user_codes st qid u)))
       (remdups (map c_uuid (filter (\<lambda>r. c_question_id r = qid) (checkbox_responses_18 st))))"
  by (simp add: user_votes_def user_codes_def Let_def)

lemma user_codes_plain:
  assumes "plain_codes st qid"
    and "u \<in> set (map c_uuid (filter (\<lambda>r. c_question_id r = qid) (checkbox_responses_18 st)))"
  shows "user_codes st qid u \<noteq> []"
    and "\<forall>c\<in>set (user_codes st qid u). c \<noteq> [] \<and> CHR '','' \<notin> set c"
proof -
  from assms(2) show "user_codes st qid u \<noteq> []"
    by (auto simp: user_codes_def filter_empty_conv)
  from assms(1) show "\<forall>c\<in>set (user_codes st qid u). c \<noteq> [] \<and> CHR '','' \<notin> set c"
    by (auto simp: user_codes_def plain_codes_def list_all_iff)
qed

lemma group_weight_user:
  assumes "plain_codes st qid"
    and "u \<in> set (map c_uuid (filter (\<lambda>r. c_question_id r = qid) (checkbox_responses_18 st)))"
  shows "group_weight (u, string_agg (user_codes st qid u)) c =
           (if truthy_str u then user_weight st qid u c else 0)"
proof -
  note p = user_codes_plain [OF assms]
  have "string_agg (user_codes st qid u) \<noteq> []"
    using p by (intro string_agg_nonempty) auto
  moreover have "split_comma (string_agg (user_codes st qid u)) = user_codes st qid u"
    using p by (intro split_string_agg) auto
  ultimately show ?thesis by (simp add: group_weight_def user_weight_def)
qed

lemma sum_list_if_filter:
  "sum_list (map (\<lambda>x. if P x then f x else (0::rat)) xs) = sum_list (map f (filter P xs))"
  by (induction xs) auto

lemma user_votes_weight:
  assumes "plain_codes st qid"
  shows "sum_list (map (\<lambda>user. group_weight user c) (user_votes st qid)) =
         sum_list (map (\<lambda>u. user_weight st qid u c) (voters st qid))"
proof -
  let ?us = "remdups (map c_uuid (filter (\<lambda>r. c_question_id r = qid) (checkbox_responses_18 st)))"
  have "sum_list (map (\<lambda>user. group_weight user c) (user_votes st qid)) =
        sum_list (map (\<lambda>u. group_weight (u, string_agg (user_codes st qid u)) c) ?us)"
    by (simp add: user_votes_eq comp_def)
  also have "\<dots> = sum_list (map (\<lambda>u. if truthy_str u then user_weight st qid u c else 0) ?us)"
    using group_weight_user [OF assms]
    by (intro arg_cong [where f = sum_list] map_cong) auto
  also have "\<dots> = sum_list (map (\<lambda>u. user_weight st qid u c) (voters st qid))"
    by (simp add: sum_list_if_filter voters_def)
  finally show ?thesis .
qed

lemma anon_votes_count:
  "sum_list (map (\<lambda>row. of_nat (snd row) :: rat)
     (filter (\<lambda>row. fst row = c) (anon_votes st qid))) = of_nat (anonymous_count st qid c)"
proof -
  let ?rows = "filter (\<lambda>r. c_question_id r = qid \<and> (c_uuid r = None \<or> c_uuid r = Some []))
                 (checkbox_responses_18 st)"
  have "sum_list (map (\<lambda>row. of_nat (snd row) :: rat)
          (filter (\<lambda>row. fst row = c) (anon_votes st qid))) =
        of_nat (sum_list (map snd (filter (\<lambda>row. fst row = c) (anon_votes st qid))))"
    by (simp add: of_nat_sum_list_map)
  also have "\<dots> = of_nat (length (filter (\<lambda>r. c_option_code r = c) ?rows))"
    using grouped_count_rows [of c c_option_code ?rows] by (simp add: anon_votes_def Let_def)
  also have "length (filter (\<lambda>r. c_option_code r = c) ?rows) = anonymous_count st qid c"
    unfolding anonymous_count_def filter_filter
    by (intro arg_cong [where f = length] filter_cong)
      (auto simp: truthy_str_def split: option.splits)
  finally show ?thesis .
qed

lemma results_dict_checkbox:
  assumes "is_checkbox st qid" and "plain_codes st qid"
  shows "results_dict st qid c =
     (if c \<in> set (option_codes st qid)
      then Some (sum_list (map (\<lambda>u. user_weight st qid u c) (voters st qid))
                 + of_nat (anonymous_count st qid c))
      else None)"
  using assms(1)
  by (simp add: results_dict_def Let_def fold_add_if_present fold_add_user_votes
      initial_results_apply anon_votes_count user_votes_weight [OF assms(2)])

lemma user_weight_total:
  assumes "user_codes st qid u \<noteq> []" and "set (user_codes st qid u) \<subseteq> set codes"
  shows "sum (user_weight st qid u) (set codes) = 1"
proof -
  let ?cs = "user_codes st qid u"
  have "sum (user_weight st qid u) (set codes) =
        of_nat (sum (count_list ?cs) (set codes)) / of_nat (length ?cs)"
    by (simp add: user_weight_def sum_divide_distrib)
  also have "sum (count_list ?cs) (set codes) = length ?cs"
    using assms(2) by (intro sum_count_set) auto
  finally show ?thesis using assms(1) by simp
qed

lemma count_list_distinct:
  "distinct xs \<Longrightarrow> x \<in> set xs \<Longrightarrow> count_list xs x = 1"
  by (induction xs) auto

lemma user_weight_distinct:
  assumes "distinct (user_codes st qid u)" and "c \<in> set (user_codes st qid u)"
  shows "user_weight st qid u c = 1 / of_nat (card (set (user_codes st qid u)))"
  using assms by (simp add: user_weight_def distinct_card count_list_distinct)

lemma add_user_votes_voter:
  assumes "plain_codes st qid" and "u \<in> set (voters st qid)"
  shows "add_user_votes (u, string_agg (user_codes st qid u)) rd c =
           map_option (\<lambda>v. v + user_weight st qid u c) (rd c)"
proof -
  from assms(2) have m: "u \<in> set (map c_uuid (filter (\<lambda>r. c_question_id r = qid)
                                   (checkbox_responses_18 st)))"
    and t: "truthy_str u"
    by (auto simp: voters_def)
  show ?thesis
    using group_weight_user [OF assms(1) m, of c] t by (simp add: add_user_votes_apply)
qed

lemma voters_have_codes:
  "u \<in> set (voters st qid) \<Longrightarrow> user_codes st qid u \<noteq> []"
  by (auto simp: voters_def user_codes_def filter_empty_conv)

text \<open>
  C1 as stated fails. U1 votes X on Q2 and, after the cooldown, votes X and Y. U1 has
  selected two distinct codes, which would give X the weight 1/2; the tally gives X
  2/3 and Y 1/3, since it divides by the number of U1's rows, which is 3.
\<close>

theorem checkbox_weight_counterexample:
  "fst (submit_checkbox_vote 0 (checkbox_vote (Some ''U1'') None None [''X'']) example_store)
     = Inr Cb_success
   \<and> fst (submit_checkbox_vote (interval_minutes 2)
            (checkbox_vote (Some ''U1'') None None [''X'', ''Y''])
            (snd (submit_checkbox_vote 0 (checkbox_vote (Some ''U1'') None None [''X''])
                    example_store))) = Inr Cb_success
   \<and> is_checkbox revote_store ''Q2''
   \<and> voters revote_store ''Q2'' = [Some ''U1'']
   \<and> user_codes revote_store ''Q2'' (Some ''U1'') = [''X'', ''X'', ''Y'']
   \<and> card (set (user_codes revote_store ''Q2'' (Some ''U1''))) = 2
   \<and> results_dict revote_store ''Q2'' ''X'' = Some (2 / 3)
   \<and> results_dict revote_store ''Q2'' ''Y'' = Some (1 / 3)
   \<and> results_dict revote_store ''Q2'' ''X''
       \<noteq> Some (1 / of_nat (card (set (user_codes revote_store ''Q2'' (Some ''U1'')))))"
proof -
  have s: "fst (submit_checkbox_vote 0 (checkbox_vote (Some ''U1'') None None [''X''])
             example_store) = Inr Cb_success"
    "fst (submit_checkbox_vote (interval_minutes 2)
            (checkbox_vote (Some ''U1'') None None [''X'', ''Y''])
            (snd (submit_checkbox_vote 0 (checkbox_vote (Some ''U1'') None None [''X''])
                    example_store))) = Inr Cb_success"
    by (simp_all add: handler_defs example_store_def)
  have c: "is_checkbox revote_store ''Q2''"
    by (simp add: is_checkbox_def revote_store_frame first_def example_store_def)
  have v: "voters revote_store ''Q2'' = [Some ''U1'']"
    by (simp add: voters_def revote_store_rows truthy_str_def)
  have u: "user_codes revote_store ''Q2'' (Some ''U1'') = [''X'', ''X'', ''Y'']"
    by (simp add: user_codes_def revote_store_rows)
  have x: "results_dict revote_store ''Q2'' ''X'' = Some (2 / 3)"
    "results_dict revote_store ''Q2'' ''Y'' = Some (1 / 3)"
    by (simp_all add: tally_defs revote_store_frame revote_store_rows example_store_def
        first_def truthy_str_def Let_def)
  show ?thesis using s c v x by (simp add: u)
qed

text \<open>
  C1, amended. For a checkbox question whose stored codes are non-empty and free of
  commas, the tally of an option code is the sum, over the identified voters, of the
  voter's weight for the code, plus the number of anonymous rows with the code. A
  voter's weight for a code is k/n, where n is the number of checkbox rows the voter has
  for the question (repeated codes and earlier submissions included) and k the number of
  these rows with the code; it is what the voter's round of the loop over \<open>user_votes\<close>
  adds to the code. The weights of a voter whose codes are all options of the
  question sum to 1; when the voter's rows have pairwise distinct codes, each of them
  has weight 1/n with n the number of distinct codes. An anonymous row (no uuid, or an
  empty one) adds 1 to its code, whatever else was selected with it.
\<close>

theorem checkbox_weights:
  assumes "is_checkbox st qid" and "plain_codes st qid" and "c \<in> set (option_codes st qid)"
  shows "results_dict st qid c =
           Some (sum_list (map (\<lambda>u. user_weight st qid u c) (voters st qid))
                 + of_nat (anonymous_count st qid c))
       \<and> (\<forall>u\<in>set (voters st qid).
            (u, string_agg (user_codes st qid u)) \<in> set (user_votes st qid)
            \<and> add_user_votes (u, string_agg (user_codes st qid u)) rd c =
                map_option (\<lambda>v. v + user_weight st qid u c) (rd c))
       \<and> (\<forall>u\<in>set (voters st qid).
            set (user_codes st qid u) \<subseteq> set (option_codes st qid) \<longrightarrow>
            sum (user_weight st qid u) (set (option_codes st qid)) = 1)
       \<and> (\<forall>u\<in>set (voters st qid). \<forall>c'\<in>set (user_codes st qid u).
            user_weight st qid u c' =
              of_nat (count_list (user_codes st qid u) c') / of_nat (length (user_codes st qid u))
            \<and> (distinct (user_codes st qid u) \<longrightarrow>
                 user_weight st qid u c' = 1 / of_nat (card (set (user_codes st qid u)))))"
proof -
  have loop: "(u, string_agg (user_codes st qid u)) \<in> set (user_votes st qid)
      \<and> add_user_votes (u, string_agg (user_codes st qid u)) rd c =
          map_option (\<lambda>v. v + user_weight st qid u c) (rd c)"
    if "u \<in> set (voters st qid)" for u
    using that add_user_votes_voter [OF assms(2) that, of rd c]
    by (auto simp: user_votes_eq voters_def)
  show ?thesis
    using assms results_dict_checkbox [OF assms(1,2), of c] loop
      user_weight_total voters_have_codes user_weight_distinct
    by (auto simp: user_weight_def)
qed

text \<open>
  The scenario of the specification: U1 gives X and Y 1/2 each, the anonymous rows add 2
  to X, and the tally of X is 5/2.
\<close>

theorem checkbox_weights_witness:
  "is_checkbox tally_store ''Q2'' \<and> plain_codes tally_store ''Q2''
   \<and> ''X'' \<in> set (option_codes tally_store ''Q2'')
   \<and> voters tally_store ''Q2'' = [Some ''U1'']
   \<and> user_weight tally_store ''Q2'' (Some ''U1'') ''X'' = 1 / 2
   \<and> anonymous_count tally_store ''Q2'' ''X'' = 2
   \<and> results_dict tally_store ''Q2'' ''X'' = Some (5 / 2)
   \<and> sum (user_weight tally_store ''Q2'' (Some ''U1'')) (set (option_codes tally_store ''Q2'')) = 1"
proof -
  have h: "is_checkbox tally_store ''Q2''" "plain_codes tally_store ''Q2''"
    "''X'' \<in> set (option_codes tally_store ''Q2'')"
    by (simp_all add: is_checkbox_def plain_codes_def option_codes_def question_options_def
        first_def tally_store_def example_store_def)
  have v: "voters tally_store ''Q2'' = [Some ''U1'']"
    by (simp add: voters_def tally_store_def example_store_def truthy_str_def)
  have u: "user_codes tally_store ''Q2'' (Some ''U1'') = [''X'', ''Y'']"
    by (simp add: user_codes_def tally_store_def example_store_def)
  have w: "user_weight tally_store ''Q2'' (Some ''U1'') ''X'' = 1 / 2"
    by (simp add: user_weight_def u)
  have a: "anonymous_count tally_store ''Q2'' ''X'' = 2"
    by (simp add: anonymous_count_def tally_store_def example_store_def truthy_str_def)
  have oc: "option_codes tally_store ''Q2'' = [''OTHER'', ''X'', ''Y'']"
    by (simp add: option_codes_def question_options_def tally_store_def example_store_def)
  have o: "set (user_codes tally_store ''Q2'' (Some ''U1'')) \<subseteq> set (option_codes tally_store ''Q2'')"
    by (simp add: u oc)
  show ?thesis
    using checkbox_weights [OF h] h v w a o by simp
qed

end
